theory Spec2Isabelle
  imports Complex_Main
begin

section \<open>The schedule resolver of the Gantt chart generator\<close>

text \<open>
  This theory embeds \<^verbatim>\<open>calculate_schedule\<close> of
  \<^verbatim>\<open>src/gantt-chart/generate-gantt_chart.py\<close> together with the parts of the
  Python standard library it runs through: \<^verbatim>\<open>float()\<close>,
  \<^verbatim>\<open>datetime.strptime(_, "%Y-%m-%d")\<close>, \<^verbatim>\<open>timedelta(weeks=_)\<close>,
  \<^verbatim>\<open>datetime + timedelta\<close> and \<^verbatim>\<open>(datetime - datetime).days\<close>.
  Every exception the code can raise on the way is a value of \<open>exn\<close>.
\<close>

subsection \<open>Values and exceptions\<close>

text \<open>
  A Python \<^verbatim>\<open>float\<close> is an IEEE binary64 value: a finite value is carried as the
  rational number it denotes (the two zeros are not told apart: nothing below depends on
  the sign of zero), next to the two infinities and NaN.
\<close>

datatype pyfloat = Finite rat | PosInf | NegInf | NaN

text \<open>
  What the YAML loader can hand over as \<^verbatim>\<open>duration_weeks\<close>: null, a boolean, an integer,
  a float, a string, or a collection (a sequence or a mapping, whose contents never matter
  here). Strings are byte strings: text beyond ASCII is outside the model.
\<close>

datatype pyval = PyNone | PyBool bool | PyInt int | PyFloat pyfloat | PyStr string
  | PySeq | PyMap

text \<open>
  \<open>InvalidDuration v n\<close> is the handler of lines 128--130: the message
  \<^verbatim>\<open>Error: Invalid duration 'v' for task 'n'\<close> followed by \<^verbatim>\<open>sys.exit(1)\<close>.
  The other three are Python exceptions that nothing in the script catches.
\<close>

datatype exn = InvalidDuration pyval string | ValueError | TypeError | OverflowError

definition bind_exn :: "exn + 'a \<Rightarrow> ('a \<Rightarrow> exn + 'b) \<Rightarrow> exn + 'b" where
  "bind_exn r f = (case r of Inl e \<Rightarrow> Inl e | Inr x \<Rightarrow> f x)"

subsection \<open>Characters\<close>

definition is_digit :: "char \<Rightarrow> bool" where
  "is_digit c = (c \<in> set ''0123456789'')"

definition is_nonzero_digit :: "char \<Rightarrow> bool" where
  "is_nonzero_digit c = (c \<in> set ''123456789'')"

definition digit_val :: "char \<Rightarrow> int" where
  "digit_val c = of_char c - 48"

text \<open>The value of a string of decimal digits, most significant digit first.\<close>

definition digits_val :: "string \<Rightarrow> int" where
  "digits_val s = foldl (\<lambda>acc c. 10 * acc + digit_val c) 0 s"

text \<open>\<^verbatim>\<open>Py_ISSPACE\<close>: space, tab, line feed, vertical tab, form feed, carriage return.\<close>

definition is_space :: "char \<Rightarrow> bool" where
  "is_space c = (c \<in> set [CHR '' '', CHR 0x09, CHR 0x0A, CHR 0x0B, CHR 0x0C, CHR 0x0D])"

definition to_lower :: "char \<Rightarrow> char" where
  "to_lower c = (case map_of (zip ''ABCDEFGHIJKLMNOPQRSTUVWXYZ'' ''abcdefghijklmnopqrstuvwxyz'') c
                 of Some d \<Rightarrow> d | None \<Rightarrow> c)"

subsection \<open>Binary64 rounding\<close>

definition round_half_even :: "rat \<Rightarrow> int" where
  "round_half_even q =
     (let f = \<lfloor>q\<rfloor>; r = q - of_int f
      in if r < 1 / 2 then f else if 1 / 2 < r then f + 1 else if even f then f else f + 1)"

text \<open>\<^verbatim>\<open>int.bit_length\<close>: the number of binary digits of a positive integer.\<close>

function bit_length :: "int \<Rightarrow> int" where
  "bit_length n = (if n \<le> 0 then 0 else 1 + bit_length (n div 2))"
  by pat_completeness auto
termination
  by (relation "measure nat") auto

declare bit_length.simps [simp del]

definition pow2 :: "int \<Rightarrow> rat" where
  "pow2 k = (if 0 \<le> k then 2 ^ nat k else 1 / 2 ^ nat (- k))"

text \<open>For \<open>0 < a\<close>, the exponent \<open>e\<close> with \<open>2\<^sup>e \<le> a < 2\<^sup>e\<^sup>+\<^sup>1\<close>.\<close>

definition floor_log2 :: "rat \<Rightarrow> int" where
  "floor_log2 a =
     (let k = bit_length (fst (quotient_of a)) - bit_length (snd (quotient_of a))
      in if pow2 k \<le> a then k else k - 1)"

text \<open>
  Round a rational to the nearest binary64 value, ties to even: 53 significant bits for a
  normal number, a multiple of \<open>2\<^sup>-\<^sup>1\<^sup>0\<^sup>7\<^sup>4\<close> for a subnormal one, an infinity when the
  rounded value reaches \<open>2\<^sup>1\<^sup>0\<^sup>2\<^sup>4\<close> (its exponent reaches 1024).
\<close>

definition round_double :: "rat \<Rightarrow> pyfloat" where
  "round_double q =
     (if q = 0 then Finite 0
      else let a = \<bar>q\<bar>;
               p = max (floor_log2 a - 52) (- 1074);
               v = of_int (round_half_even (a / pow2 p)) * pow2 p
           in if 1024 \<le> floor_log2 v then (if 0 < q then PosInf else NegInf)
              else Finite (if 0 < q then v else - v))"

subsection \<open>\<^verbatim>\<open>float()\<close>\<close>

text \<open>
  \<^verbatim>\<open>float(str)\<close> strips surrounding whitespace, lets a single underscore stand between two
  digits, and then reads either \<^verbatim>\<open>inf\<close>, \<^verbatim>\<open>infinity\<close> or \<^verbatim>\<open>nan\<close> (any letter case, with
  an optional sign) or a decimal numeral: an optional sign, digits with an optional point
  (at least one digit in all), and an optional exponent. The whole string has to be used
  up; anything else is a \<^verbatim>\<open>ValueError\<close>.
\<close>

definition strip :: "string \<Rightarrow> string" where
  "strip s = rev (dropWhile is_space (rev (dropWhile is_space s)))"

text \<open>
  The underscore pass of \<^verbatim>\<open>_Py_string_to_number_with_underscores\<close>: \<open>prev\<close> is the
  character before; the result is the string without its underscores, or \<open>None\<close> when an
  underscore is misplaced.
\<close>

fun drop_underscores :: "char \<Rightarrow> string \<Rightarrow> string option" where
  "drop_underscores prev [] = (if prev = CHR ''_'' then None else Some [])"
| "drop_underscores prev (c # cs) =
     (if c = CHR ''_'' then (if is_digit prev then drop_underscores c cs else None)
      else if prev = CHR ''_'' \<and> \<not> is_digit c then None
      else map_option ((#) c) (drop_underscores c cs))"

definition split_sign :: "string \<Rightarrow> bool \<times> string" where
  "split_sign s =
     (case s of [] \<Rightarrow> (False, [])
      | c # cs \<Rightarrow> if c = CHR ''-'' then (True, cs) else if c = CHR ''+'' then (False, cs)
                  else (False, s))"

definition pow10 :: "int \<Rightarrow> rat" where
  "pow10 k = (if 0 \<le> k then 10 ^ nat k else 1 / 10 ^ nat (- k))"

text \<open>The exponent part: empty, or \<^verbatim>\<open>e\<close>/\<^verbatim>\<open>E\<close>, an optional sign and at least one digit.\<close>

definition parse_exponent :: "string \<Rightarrow> int option" where
  "parse_exponent s =
     (case s of [] \<Rightarrow> Some 0
      | c # cs \<Rightarrow>
          if c = CHR ''e'' \<or> c = CHR ''E'' then
            (let (neg, ds) = split_sign cs
             in if ds \<noteq> [] \<and> list_all is_digit ds
                then Some (if neg then - digits_val ds else digits_val ds) else None)
          else None)"

text \<open>An unsigned decimal numeral, as the exact rational it writes.\<close>

definition parse_decimal :: "string \<Rightarrow> rat option" where
  "parse_decimal s =
     (let ip = takeWhile is_digit s; r1 = dropWhile is_digit s;
          fp = (case r1 of [] \<Rightarrow> [] | c # cs \<Rightarrow> if c = CHR ''.'' then takeWhile is_digit cs else []);
          r2 = (case r1 of [] \<Rightarrow> [] | c # cs \<Rightarrow> if c = CHR ''.'' then dropWhile is_digit cs else r1)
      in if ip = [] \<and> fp = [] then None
         else (case parse_exponent r2 of None \<Rightarrow> None
               | Some ex \<Rightarrow> Some (of_int (digits_val (ip @ fp)) * pow10 (ex - int (length fp)))))"

definition float_of_string :: "string \<Rightarrow> exn + pyfloat" where
  "float_of_string s =
     (case drop_underscores (CHR 0x00) (strip s) of None \<Rightarrow> Inl ValueError
      | Some t \<Rightarrow>
          (let (neg, body) = split_sign t; word = map to_lower body
           in if word = ''inf'' \<or> word = ''infinity'' then Inr (if neg then NegInf else PosInf)
              else if word = ''nan'' then Inr NaN
              else (case parse_decimal body of None \<Rightarrow> Inl ValueError
                    | Some q \<Rightarrow> Inr (round_double (if neg then - q else q)))))"

text \<open>
  \<^verbatim>\<open>float(v)\<close>: a float is returned as it is; an integer (a boolean is one) is rounded to
  the nearest float, with \<^verbatim>\<open>OverflowError\<close> when it is too large; a string is parsed;
  null and the collections raise \<^verbatim>\<open>TypeError\<close>.
\<close>

fun float_of :: "pyval \<Rightarrow> exn + pyfloat" where
  "float_of PyNone = Inl TypeError"
| "float_of (PyBool b) = Inr (Finite (if b then 1 else 0))"
| "float_of (PyInt n) =
     (case round_double (of_int n) of Finite q \<Rightarrow> Inr (Finite q) | _ \<Rightarrow> Inl OverflowError)"
| "float_of (PyFloat f) = Inr f"
| "float_of (PyStr s) = float_of_string s"
| "float_of PySeq = Inl TypeError"
| "float_of PyMap = Inl TypeError"

subsection \<open>Dates\<close>

text \<open>
  A naive \<^verbatim>\<open>datetime\<close> is the number of microseconds since midnight of the day with
  proleptic Gregorian ordinal 0 (the day before 0001-01-01); a \<^verbatim>\<open>timedelta\<close> is a number
  of microseconds. The day count follows \<^verbatim>\<open>_ymd2ord\<close> of the standard library.
\<close>

type_synonym datetime = int
type_synonym timedelta = int

definition us_per_day :: int where
  "us_per_day = 86400000000"

definition us_per_week :: int where
  "us_per_week = 604800000000"

definition is_leap :: "int \<Rightarrow> bool" where
  "is_leap y = (y mod 4 = 0 \<and> (y mod 100 \<noteq> 0 \<or> y mod 400 = 0))"

definition days_before_year :: "int \<Rightarrow> int" where
  "days_before_year year = (let y = year - 1 in y * 365 + y div 4 - y div 100 + y div 400)"

definition days_in_month :: "int \<Rightarrow> int \<Rightarrow> int" where
  "days_in_month year month =
     (if month = 2 \<and> is_leap year then 29
      else [31, 28, 31, 30, 31, 30, 31, 31, 30, 31, 30, 31] ! nat (month - 1))"

definition days_before_month :: "int \<Rightarrow> int \<Rightarrow> int" where
  "days_before_month year month =
     [0, 31, 59, 90, 120, 151, 181, 212, 243, 273, 304, 334] ! nat (month - 1)
       + (if 2 < month \<and> is_leap year then 1 else 0)"

definition ymd2ord :: "int \<Rightarrow> int \<Rightarrow> int \<Rightarrow> int" where
  "ymd2ord year month day = days_before_year year + days_before_month year month + day"

text \<open>\<^verbatim>\<open>datetime(year, month, day)\<close>, midnight, for a valid calendar date.\<close>

definition mk_datetime :: "int \<Rightarrow> int \<Rightarrow> int \<Rightarrow> datetime" where
  "mk_datetime year month day = ymd2ord year month day * us_per_day"

text \<open>
  The month and day groups of the pattern that \<^verbatim>\<open>strptime\<close> compiles from
  \<^verbatim>\<open>%Y-%m-%d\<close>: \<^verbatim>\<open>1[0-2]|0[1-9]|[1-9]\<close> and \<^verbatim>\<open>3[01]|[12]\d|0[1-9]|[1-9]| [1-9]\<close>. Each
  function lists, in the order the alternatives are tried, the value read and the rest of
  the string.
\<close>

definition month_alts :: "string \<Rightarrow> (int \<times> string) list" where
  "month_alts s =
     (case s of [] \<Rightarrow> []
      | a # r \<Rightarrow>
         (case r of [] \<Rightarrow> []
          | b # r' \<Rightarrow>
              (if a = CHR ''1'' \<and> b \<in> set ''012'' then [(10 + digit_val b, r')] else [])
              @ (if a = CHR ''0'' \<and> is_nonzero_digit b then [(digit_val b, r')] else []))
         @ (if is_nonzero_digit a then [(digit_val a, r)] else []))"

definition day_alts :: "string \<Rightarrow> (int \<times> string) list" where
  "day_alts s =
     (case s of [] \<Rightarrow> []
      | a # r \<Rightarrow>
         (case r of [] \<Rightarrow> []
          | b # r' \<Rightarrow>
              (if a = CHR ''3'' \<and> b \<in> set ''01'' then [(30 + digit_val b, r')] else [])
              @ (if a \<in> set ''12'' \<and> is_digit b then [(10 * digit_val a + digit_val b, r')] else [])
              @ (if a = CHR ''0'' \<and> is_nonzero_digit b then [(digit_val b, r')] else []))
         @ (if is_nonzero_digit a then [(digit_val a, r)] else [])
         @ (case r of [] \<Rightarrow> []
            | b # r' \<Rightarrow> if a = CHR '' '' \<and> is_nonzero_digit b then [(digit_val b, r')] else []))"

text \<open>
  The match of \<^verbatim>\<open>(\d\d\d\d)-(month)-(day)\<close> at the start of the string: the first month
  alternative that a hyphen follows, then the first day alternative. Text left over after
  the match (\<^verbatim>\<open>unconverted data remains\<close>) is a \<^verbatim>\<open>ValueError\<close>, as is no match.
\<close>

definition strptime_ymd :: "string \<Rightarrow> exn + (int \<times> int \<times> int)" where
  "strptime_ymd s =
     (if 5 \<le> length s \<and> list_all is_digit (take 4 s) \<and> s ! 4 = CHR ''-'' then
        (case filter (\<lambda>(m, r). take 1 r = ''-'') (month_alts (drop 5 s)) of
           [] \<Rightarrow> Inl ValueError
         | (m, r) # _ \<Rightarrow>
             (case day_alts (drop 1 r) of
                [] \<Rightarrow> Inl ValueError
              | (d, r') # _ \<Rightarrow>
                  if r' = [] then Inr (digits_val (take 4 s), m, d) else Inl ValueError))
      else Inl ValueError)"

text \<open>
  \<^verbatim>\<open>parse_date\<close> (lines 86--88). The date found must exist: year 0 and a day beyond the
  month's length are a \<^verbatim>\<open>ValueError\<close> too.
\<close>

definition parse_date :: "string \<Rightarrow> exn + datetime" where
  "parse_date date_str =
     bind_exn (strptime_ymd date_str) (\<lambda>(y, m, d).
       if 1 \<le> y \<and> 1 \<le> d \<and> d \<le> days_in_month y m then Inr (mk_datetime y m d)
       else Inl ValueError)"

subsection \<open>\<^verbatim>\<open>timedelta(weeks=w)\<close> and date arithmetic\<close>

text \<open>The integer part of \<^verbatim>\<open>modf\<close>: rounding towards zero.\<close>

definition trunc :: "rat \<Rightarrow> int" where
  "trunc q = (if 0 \<le> q then \<lfloor>q\<rfloor> else \<lceil>q\<rceil>)"

text \<open>
  The constructor splits the float into its integer and fractional part. The integer part
  is multiplied by the microseconds of a week exactly; the fractional part is multiplied
  in float arithmetic, and what is left below a microsecond is rounded half to even. The
  conversions of an infinity and of NaN to an integer raise \<^verbatim>\<open>OverflowError\<close> and
  \<^verbatim>\<open>ValueError\<close>. A result beyond 999999999 days is an \<^verbatim>\<open>OverflowError\<close>.
\<close>

definition float_to_int :: "pyfloat \<Rightarrow> exn + rat" where
  "float_to_int f =
     (case f of Finite q \<Rightarrow> Inr q | PosInf \<Rightarrow> Inl OverflowError | NegInf \<Rightarrow> Inl OverflowError
      | NaN \<Rightarrow> Inl ValueError)"

definition timedelta_weeks :: "pyfloat \<Rightarrow> exn + timedelta" where
  "timedelta_weeks weeks =
     bind_exn (float_to_int weeks) (\<lambda>q.
       let intpart = trunc q; fracpart = q - of_int intpart; x = intpart * us_per_week
       in bind_exn
            (if fracpart = 0 then Inr x
             else bind_exn (float_to_int (round_double (of_int us_per_week * fracpart)))
                    (\<lambda>d. Inr (round_half_even (of_int x + d))))
            (\<lambda>us. if \<bar>us div us_per_day\<bar> \<le> 999999999 then Inr us else Inl OverflowError))"

text \<open>\<^verbatim>\<open>datetime + timedelta\<close>: the result has to lie in the years 1 to 9999.\<close>

definition datetime_add :: "datetime \<Rightarrow> timedelta \<Rightarrow> exn + datetime" where
  "datetime_add dt td =
     (let r = dt + td
      in if 1 \<le> r div us_per_day \<and> r div us_per_day \<le> 3652059 then Inr r
         else Inl OverflowError)"

text \<open>\<^verbatim>\<open>(a - b).days\<close>: the whole days of the difference, rounded down.\<close>

definition days_between :: "datetime \<Rightarrow> datetime \<Rightarrow> int" where
  "days_between a b = (a - b) div us_per_day"

subsection \<open>\<^verbatim>\<open>calculate_schedule\<close>\<close>

text \<open>
  A task of the configuration. \<open>start_date\<close> is \<open>None\<close> when the key is absent or null;
  a date the YAML loader has already recognised enters as its ISO string, which is what
  \<^verbatim>\<open>str\<close> makes of it in \<^verbatim>\<open>parse_date\<close>.
\<close>

record task =
  name :: string
  duration_weeks :: pyval
  start_date :: "string option"

record config =
  project_start_date :: string
  project_end_date :: string
  tasks :: "task list"

text \<open>One row of the returned data frame.\<close>

record row =
  Task :: string
  Start :: datetime
  End :: datetime
  DurationDays :: int

definition mk_row :: "string \<Rightarrow> datetime \<Rightarrow> datetime \<Rightarrow> row" where
  "mk_row n s e = \<lparr>Task = n, Start = s, End = e, DurationDays = days_between e s\<rparr>"

text \<open>\<^verbatim>\<open>if manual_start:\<close> holds for a string that is not empty.\<close>

definition manual_start :: "task \<Rightarrow> string option" where
  "manual_start t = (case start_date t of None \<Rightarrow> None | Some s \<Rightarrow> if s = [] then None else Some s)"

text \<open>
  The body of the \<^verbatim>\<open>try\<close> (lines 126--127) and its handler: a \<^verbatim>\<open>ValueError\<close> from
  either statement becomes the fatal report, any other exception passes through.
\<close>

definition numeric_end :: "string \<Rightarrow> pyval \<Rightarrow> datetime \<Rightarrow> exn + datetime" where
  "numeric_end n duration_val start =
     (case bind_exn (float_of duration_val) (\<lambda>weeks.
             bind_exn (timedelta_weeks weeks) (\<lambda>td. datetime_add start td)) of
        Inl ValueError \<Rightarrow> Inl (InvalidDuration duration_val n)
      | Inl e \<Rightarrow> Inl e
      | Inr end_date \<Rightarrow> Inr end_date)"

text \<open>
  One pass through the loop body (lines 105--141): the row appended to
  \<^verbatim>\<open>tasks_data\<close> and the value of \<^verbatim>\<open>current_date\<close> afterwards.
\<close>

definition resolve_task :: "datetime \<Rightarrow> datetime \<Rightarrow> datetime \<Rightarrow> task \<Rightarrow> exn + (row \<times> datetime)" where
  "resolve_task project_start project_end current_date t =
     bind_exn (case manual_start t of Some s \<Rightarrow> parse_date s | None \<Rightarrow> Inr current_date)
       (\<lambda>start0.
          if duration_weeks t = PyStr ''start2end'' then
            bind_exn (case manual_start t of Some s \<Rightarrow> parse_date s | None \<Rightarrow> Inr project_start)
              (\<lambda>start. Inr (mk_row (name t) start project_end, current_date))
          else
            bind_exn (numeric_end (name t) (duration_weeks t) start0)
              (\<lambda>end_date. Inr (mk_row (name t) start0 end_date, end_date)))"

text \<open>The loop of lines 104--141, with its two variables.\<close>

fun schedule_loop ::
  "datetime \<Rightarrow> datetime \<Rightarrow> row list \<Rightarrow> datetime \<Rightarrow> task list \<Rightarrow> exn + row list" where
  "schedule_loop project_start project_end tasks_data current_date [] = Inr tasks_data"
| "schedule_loop project_start project_end tasks_data current_date (t # ts) =
     bind_exn (resolve_task project_start project_end current_date t)
       (\<lambda>(r, current_date'). schedule_loop project_start project_end (tasks_data @ [r]) current_date' ts)"

text \<open>
  The function itself. The advisory it prints for a project longer than 450 days changes
  nothing in what is returned and is left out.
\<close>

definition calculate_schedule :: "config \<Rightarrow> exn + (row list \<times> datetime \<times> datetime)" where
  "calculate_schedule cfg =
     bind_exn (parse_date (project_start_date cfg)) (\<lambda>project_start.
       bind_exn (parse_date (project_end_date cfg)) (\<lambda>project_end.
         bind_exn (schedule_loop project_start project_end [] project_start (tasks cfg))
           (\<lambda>tasks_data. Inr (tasks_data, project_start, project_end))))"

subsection \<open>Example inputs\<close>

text \<open>A two-month plan with one span-to-end task between two sequential ones.\<close>

definition thesis_plan :: config where
  "thesis_plan =
     \<lparr>project_start_date = ''2026-02-01'', project_end_date = ''2026-04-01'',
      tasks = [\<lparr>name = ''Lit Review'', duration_weeks = PyInt 3, start_date = None\<rparr>,
               \<lparr>name = ''Pilot'', duration_weeks = PyStr ''start2end'', start_date = None\<rparr>,
               \<lparr>name = ''Writeup'', duration_weeks = PyInt 2, start_date = None\<rparr>]\<rparr>"

definition thesis_rows :: "row list" where
  "thesis_rows =
     [\<lparr>Task = ''Lit Review'', Start = mk_datetime 2026 2 1, End = mk_datetime 2026 2 22,
        DurationDays = 21\<rparr>,
      \<lparr>Task = ''Pilot'', Start = mk_datetime 2026 2 1, End = mk_datetime 2026 4 1,
        DurationDays = 59\<rparr>,
      \<lparr>Task = ''Writeup'', Start = mk_datetime 2026 2 22, End = mk_datetime 2026 3 8,
        DurationDays = 14\<rparr>]"

text \<open>Three sequential tasks, the second lasting two and a half weeks.\<close>

definition sequential_plan :: config where
  "sequential_plan =
     \<lparr>project_start_date = ''2026-01-05'', project_end_date = ''2026-03-31'',
      tasks = [\<lparr>name = ''Design'', duration_weeks = PyInt 1, start_date = None\<rparr>,
               \<lparr>name = ''Build'', duration_weeks = PyFloat (Finite (5 / 2)), start_date = None\<rparr>,
               \<lparr>name = ''Test'', duration_weeks = PyInt 2, start_date = None\<rparr>]\<rparr>"

definition sequential_rows :: "row list" where
  "sequential_rows =
     [\<lparr>Task = ''Design'', Start = mk_datetime 2026 1 5, End = mk_datetime 2026 1 12,
        DurationDays = 7\<rparr>,
      \<lparr>Task = ''Build'', Start = mk_datetime 2026 1 12,
        End = mk_datetime 2026 1 29 + 12 * 3600000000, DurationDays = 17\<rparr>,
      \<lparr>Task = ''Test'', Start = mk_datetime 2026 1 29 + 12 * 3600000000,
        End = mk_datetime 2026 2 12 + 12 * 3600000000, DurationDays = 14\<rparr>]"


definition pilot :: task where
  "pilot = \<lparr>name = ''Pilot'', duration_weeks = PyStr ''start2end'', start_date = None\<rparr>"

definition writeup :: task where
  "writeup = \<lparr>name = ''Writeup'', duration_weeks = PyInt 2, start_date = None\<rparr>"

text \<open>A plan whose second task has a duration that is no number, and tasks with odd durations.\<close>

definition broken :: task where
  "broken = \<lparr>name = ''Broken'', duration_weeks = PyStr ''abc'', start_date = None\<rparr>"

definition broken_plan :: config where
  "broken_plan =
     \<lparr>project_start_date = ''2026-02-01'', project_end_date = ''2026-04-01'',
      tasks = [\<lparr>name = ''Lit Review'', duration_weeks = PyInt 3, start_date = None\<rparr>,
               broken,
               \<lparr>name = ''Writeup'', duration_weeks = PyInt 2, start_date = None\<rparr>]\<rparr>"

definition rework :: task where
  "rework = \<lparr>name = ''Rework'', duration_weeks = PyInt (- 1), start_date = None\<rparr>"

definition drift :: task where
  "drift = \<lparr>name = ''Drift'', duration_weeks = PyFloat NaN, start_date = None\<rparr>"

definition half_week :: task where
  "half_week = \<lparr>name = ''Half'', duration_weeks = PyFloat (Finite (1 / 2)), start_date = None\<rparr>"

definition draft_plan :: config where
  "draft_plan =
     \<lparr>project_start_date = ''2026-01-05'', project_end_date = ''2026-03-31'',
      tasks = [\<lparr>name = ''Draft'', duration_weeks = PyStr ''2.5'', start_date = None\<rparr>]\<rparr>"

subsection \<open>Kinds of duration values\<close>

text \<open>The values that are a string or a number, as opposed to null and the collections.\<close>

fun str_or_number :: "pyval \<Rightarrow> bool" where
  "str_or_number PyNone = False"
| "str_or_number (PyBool b) = True"
| "str_or_number (PyInt n) = True"
| "str_or_number (PyFloat f) = True"
| "str_or_number (PyStr s) = True"
| "str_or_number PySeq = False"
| "str_or_number PyMap = False"

section \<open>Properties\<close>

subsection \<open>Exceptions and the loop\<close>

lemma bind_exn_Inl [simp]: "bind_exn (Inl e) f = Inl e"
  by (simp add: bind_exn_def)

lemma bind_exn_Inr [simp]: "bind_exn (Inr x) f = f x"
  by (simp add: bind_exn_def)

lemma bind_exn_eq_Inr: "bind_exn r f = Inr y \<longleftrightarrow> (\<exists>x. r = Inr x \<and> f x = Inr y)"
  by (cases r) simp_all

text \<open>The rows a run appends do not depend on the rows already collected.\<close>

lemma schedule_loop_acc:
  "schedule_loop ps pe acc cur ts = bind_exn (schedule_loop ps pe [] cur ts) (\<lambda>rs. Inr (acc @ rs))"
proof (induction ts arbitrary: acc cur)
  case Nil
  show ?case by simp
next
  case (Cons t ts)
  show ?case
  proof (cases "resolve_task ps pe cur t")
    case (Inl e)
    then show ?thesis by simp
  next
    case (Inr p)
    obtain r c where p: "p = (r, c)" by (cases p)
    have a: "schedule_loop ps pe (acc @ [r]) c ts
               = bind_exn (schedule_loop ps pe [] c ts) (\<lambda>rs. Inr ((acc @ [r]) @ rs))"
      by (rule Cons.IH)
    have b: "schedule_loop ps pe [r] c ts
               = bind_exn (schedule_loop ps pe [] c ts) (\<lambda>rs. Inr ([r] @ rs))"
      by (rule Cons.IH)
    show ?thesis
      using Inr p a b by (cases "schedule_loop ps pe [] c ts") simp_all
  qed
qed

lemma schedule_loop_step:
  "schedule_loop ps pe [] cur (t # ts) =
     bind_exn (resolve_task ps pe cur t)
       (\<lambda>(r, c). bind_exn (schedule_loop ps pe [] c ts) (\<lambda>rs. Inr (r # rs)))"
proof (cases "resolve_task ps pe cur t")
  case (Inl e)
  then show ?thesis by simp
next
  case (Inr p)
  obtain r c where p: "p = (r, c)" by (cases p)
  have "schedule_loop ps pe [r] c ts
          = bind_exn (schedule_loop ps pe [] c ts) (\<lambda>rs. Inr ([r] @ rs))"
    by (rule schedule_loop_acc)
  then show ?thesis
    using Inr p by simp
qed

declare schedule_loop.simps(2) [simp del]

lemma schedule_loop_Cons:
  "schedule_loop ps pe [] cur (t # ts) = Inr rows \<longleftrightarrow>
     (\<exists>r c rs. resolve_task ps pe cur t = Inr (r, c) \<and> schedule_loop ps pe [] c ts = Inr rs
        \<and> rows = r # rs)"
  by (auto simp: schedule_loop_step bind_exn_eq_Inr)

lemma calculate_schedule_Inr:
  "calculate_schedule cfg = Inr (rows, ps, pe) \<longleftrightarrow>
     parse_date (project_start_date cfg) = Inr ps \<and> parse_date (project_end_date cfg) = Inr pe
     \<and> schedule_loop ps pe [] ps (tasks cfg) = Inr rows"
  by (auto simp: calculate_schedule_def bind_exn_eq_Inr)

subsection \<open>One task\<close>

lemma resolve_task_span_unanchored:
  assumes "duration_weeks t = PyStr ''start2end''" and "manual_start t = None"
  shows "resolve_task ps pe cur t = Inr (mk_row (name t) ps pe, cur)"
  using assms by (simp add: resolve_task_def)

lemma resolve_task_span_anchored:
  assumes "duration_weeks t = PyStr ''start2end''" and "manual_start t = Some s"
  shows "resolve_task ps pe cur t
           = bind_exn (parse_date s) (\<lambda>start. Inr (mk_row (name t) start pe, cur))"
  using assms by (cases "parse_date s") (simp_all add: resolve_task_def)

lemma resolve_task_numeric:
  assumes "duration_weeks t \<noteq> PyStr ''start2end''"
  shows "resolve_task ps pe cur t
           = bind_exn (case manual_start t of Some s \<Rightarrow> parse_date s | None \<Rightarrow> Inr cur)
               (\<lambda>start. bind_exn (numeric_end (name t) (duration_weeks t) start)
                  (\<lambda>end_date. Inr (mk_row (name t) start end_date, end_date)))"
  using assms by (simp add: resolve_task_def)

lemma resolve_task_Task:
  assumes "resolve_task ps pe cur t = Inr (r, c)"
  shows "Task r = name t"
  using assms
  by (auto simp: resolve_task_def mk_row_def bind_exn_eq_Inr split: if_splits)

lemma schedule_loop_names:
  "schedule_loop ps pe [] cur ts = Inr rows \<Longrightarrow> map Task rows = map name ts"
proof (induction ts arbitrary: cur rows)
  case Nil
  then show ?case by simp
next
  case (Cons t ts)
  from Cons.prems obtain r c rs where
    r: "resolve_task ps pe cur t = Inr (r, c)" and
    rs: "schedule_loop ps pe [] c ts = Inr rs" and rows: "rows = r # rs"
    by (auto simp: schedule_loop_Cons)
  show ?case
    using Cons.IH [OF rs] resolve_task_Task [OF r] rows by simp
qed

lemma schedule_loop_span_unanchored:
  assumes "schedule_loop ps pe [] cur ts = Inr rows" and "i < length ts"
    and "duration_weeks (ts ! i) = PyStr ''start2end''" and "manual_start (ts ! i) = None"
  shows "rows ! i = mk_row (name (ts ! i)) ps pe"
  using assms
proof (induction ts arbitrary: cur rows i)
  case Nil
  then show ?case by simp
next
  case (Cons t ts)
  from Cons.prems(1) obtain r c rs where
    r: "resolve_task ps pe cur t = Inr (r, c)" and
    rs: "schedule_loop ps pe [] c ts = Inr rs" and rows: "rows = r # rs"
    by (auto simp: schedule_loop_Cons)
  show ?case
  proof (cases i)
    case 0
    then show ?thesis
      using Cons.prems r rows by (simp add: resolve_task_span_unanchored)
  next
    case (Suc j)
    then show ?thesis
      using Cons.IH [OF rs, of j] Cons.prems rows by simp
  qed
qed

subsection \<open>Evaluated runs\<close>

lemma thesis_plan_run:
  "calculate_schedule thesis_plan = Inr (thesis_rows, mk_datetime 2026 2 1, mk_datetime 2026 4 1)"
  by code_simp

section \<open>The claims\<close>

subsection \<open>The worked example\<close>

text \<open>
  Claim C1. For the project from 2026-02-01 to 2026-04-01 with the tasks Lit Review
  (3 weeks), Pilot (\<^verbatim>\<open>start2end\<close>) and Writeup (2 weeks), none with a fixed start, the
  resolver returns, in this order, Lit Review from 2026-02-01 to 2026-02-22, Pilot from
  2026-02-01 to 2026-04-01 and Writeup from 2026-02-22 to 2026-03-08.
\<close>

theorem C1_worked_example:
  "calculate_schedule
     \<lparr>project_start_date = ''2026-02-01'', project_end_date = ''2026-04-01'',
      tasks = [\<lparr>name = ''Lit Review'', duration_weeks = PyInt 3, start_date = None\<rparr>,
               \<lparr>name = ''Pilot'', duration_weeks = PyStr ''start2end'', start_date = None\<rparr>,
               \<lparr>name = ''Writeup'', duration_weeks = PyInt 2, start_date = None\<rparr>]\<rparr>
   = Inr ([\<lparr>Task = ''Lit Review'', Start = mk_datetime 2026 2 1, End = mk_datetime 2026 2 22,
             DurationDays = 21\<rparr>,
           \<lparr>Task = ''Pilot'', Start = mk_datetime 2026 2 1, End = mk_datetime 2026 4 1,
             DurationDays = 59\<rparr>,
           \<lparr>Task = ''Writeup'', Start = mk_datetime 2026 2 22, End = mk_datetime 2026 3 8,
             DurationDays = 14\<rparr>],
          mk_datetime 2026 2 1, mk_datetime 2026 4 1)"
  using thesis_plan_run by (simp only: thesis_plan_def thesis_rows_def)

subsection \<open>Span-to-end tasks\<close>

text \<open>
  Claim C2. A task whose duration is the sentinel \<^verbatim>\<open>start2end\<close> and which has no fixed start
  date resolves to exactly the project window, from the project start to the project end,
  at every position in the sequence and for every value of the cursor: in the loop started
  with any cursor, and therefore in every run of \<open>calculate_schedule\<close>.
\<close>

theorem C2_span_to_end_is_project_window:
  "(schedule_loop project_start project_end [] cursor ts = Inr rows \<and> i < length ts
      \<and> duration_weeks (ts ! i) = PyStr ''start2end'' \<and> manual_start (ts ! i) = None
    \<longrightarrow> Start (rows ! i) = project_start \<and> End (rows ! i) = project_end)
   \<and> (calculate_schedule cfg = Inr (rows', project_start', project_end')
        \<and> j < length (tasks cfg)
        \<and> duration_weeks (tasks cfg ! j) = PyStr ''start2end''
        \<and> manual_start (tasks cfg ! j) = None
    \<longrightarrow> parse_date (project_start_date cfg) = Inr (Start (rows' ! j))
        \<and> parse_date (project_end_date cfg) = Inr (End (rows' ! j)))"
proof (intro conjI impI)
  assume a: "schedule_loop project_start project_end [] cursor ts = Inr rows \<and> i < length ts
      \<and> duration_weeks (ts ! i) = PyStr ''start2end'' \<and> manual_start (ts ! i) = None"
  then have "rows ! i = mk_row (name (ts ! i)) project_start project_end"
    using schedule_loop_span_unanchored [of project_start project_end cursor ts rows i]
    by simp
  then show "Start (rows ! i) = project_start" and "End (rows ! i) = project_end"
    by (simp_all add: mk_row_def)
next
  assume b: "calculate_schedule cfg = Inr (rows', project_start', project_end')
        \<and> j < length (tasks cfg)
        \<and> duration_weeks (tasks cfg ! j) = PyStr ''start2end''
        \<and> manual_start (tasks cfg ! j) = None"
  then have run: "parse_date (project_start_date cfg) = Inr project_start'"
      "parse_date (project_end_date cfg) = Inr project_end'"
      "schedule_loop project_start' project_end' [] project_start' (tasks cfg) = Inr rows'"
    by (simp_all add: calculate_schedule_Inr)
  have "rows' ! j = mk_row (name (tasks cfg ! j)) project_start' project_end'"
    using run(3) b
      schedule_loop_span_unanchored [of project_start' project_end' project_start' "tasks cfg" rows' j]
    by simp
  then show "parse_date (project_start_date cfg) = Inr (Start (rows' ! j))"
    and "parse_date (project_end_date cfg) = Inr (End (rows' ! j))"
    using run by (simp_all add: mk_row_def)
qed

theorem C2_span_to_end_is_project_window_witness:
  "calculate_schedule thesis_plan = Inr (thesis_rows, mk_datetime 2026 2 1, mk_datetime 2026 4 1)
   \<and> (1 :: nat) < length (tasks thesis_plan)
   \<and> duration_weeks (tasks thesis_plan ! 1) = PyStr ''start2end''
   \<and> manual_start (tasks thesis_plan ! 1) = None
   \<and> parse_date (project_start_date thesis_plan) = Inr (Start (thesis_rows ! 1))
   \<and> parse_date (project_end_date thesis_plan) = Inr (End (thesis_rows ! 1))
   \<and> schedule_loop (mk_datetime 2026 2 1) (mk_datetime 2026 4 1) [] (mk_datetime 2026 2 22)
        (drop 1 (tasks thesis_plan))
      = Inr (drop 1 thesis_rows)
   \<and> Start (drop 1 thesis_rows ! 0) = mk_datetime 2026 2 1
   \<and> End (drop 1 thesis_rows ! 0) = mk_datetime 2026 4 1"
proof -
  have run: "calculate_schedule thesis_plan
               = Inr (thesis_rows, mk_datetime 2026 2 1, mk_datetime 2026 4 1)"
    by (rule thesis_plan_run)
  have h: "(1 :: nat) < length (tasks thesis_plan)"
    "duration_weeks (tasks thesis_plan ! 1) = PyStr ''start2end''"
    "manual_start (tasks thesis_plan ! 1) = None"
    by (simp_all add: thesis_plan_def manual_start_def)
  have tail: "schedule_loop (mk_datetime 2026 2 1) (mk_datetime 2026 4 1) []
                (mk_datetime 2026 2 22) (drop 1 (tasks thesis_plan))
              = Inr (drop 1 thesis_rows)"
    by code_simp
  have h': "(0 :: nat) < length (drop 1 (tasks thesis_plan))"
    "duration_weeks (drop 1 (tasks thesis_plan) ! 0) = PyStr ''start2end''"
    "manual_start (drop 1 (tasks thesis_plan) ! 0) = None"
    by (simp_all add: thesis_plan_def manual_start_def)
  show ?thesis
    using C2_span_to_end_is_project_window
      [of "mk_datetime 2026 2 1" "mk_datetime 2026 4 1" "mk_datetime 2026 2 22"
          "drop 1 (tasks thesis_plan)" "drop 1 thesis_rows" 0 thesis_plan thesis_rows
          "mk_datetime 2026 2 1" "mk_datetime 2026 4 1" 1]
      run h tail h'
    by simp
qed

subsection \<open>One row per task\<close>

text \<open>
  Claim C9. The resolved tasks correspond one to one to the task descriptors: a run that
  returns gives as many rows as there are tasks, and the row at each position carries the
  name of the task at that position.
\<close>

theorem C9_rows_follow_tasks:
  assumes "calculate_schedule cfg = Inr (rows, project_start, project_end)"
  shows "length rows = length (tasks cfg) \<and> map Task rows = map name (tasks cfg)"
proof -
  have "schedule_loop project_start project_end [] project_start (tasks cfg) = Inr rows"
    using assms by (simp add: calculate_schedule_Inr)
  then have names: "map Task rows = map name (tasks cfg)"
    by (rule schedule_loop_names)
  then have "length rows = length (tasks cfg)"
    by (rule map_eq_imp_length_eq)
  with names show ?thesis by simp
qed

theorem C9_rows_follow_tasks_witness:
  "calculate_schedule thesis_plan = Inr (thesis_rows, mk_datetime 2026 2 1, mk_datetime 2026 4 1)
   \<and> length thesis_rows = length (tasks thesis_plan)
   \<and> map Task thesis_rows = map name (tasks thesis_plan)
   \<and> map Task thesis_rows = [''Lit Review'', ''Pilot'', ''Writeup'']"
  using C9_rows_follow_tasks [OF thesis_plan_run] thesis_plan_run
  by (simp add: thesis_rows_def)

lemma parse_date_2026_01_01: "parse_date ''2026-01-01'' = Inr (mk_datetime 2026 1 1)"
  by code_simp


lemma parse_date_2026_04_01: "parse_date ''2026-04-01'' = Inr (mk_datetime 2026 4 1)"
  by code_simp

lemma float_of_PyInt_2: "float_of (PyInt 2) = Inr (Finite 2)"
  by code_simp

lemma float_of_PyInt_3: "float_of (PyInt 3) = Inr (Finite 3)"
  by code_simp

lemma timedelta_weeks_2: "timedelta_weeks (Finite 2) = Inr (14 * us_per_day)"
  by code_simp

lemma timedelta_weeks_3: "timedelta_weeks (Finite 3) = Inr (21 * us_per_day)"
  by code_simp

lemma two_weeks_from_2026_01_01:
  "datetime_add (mk_datetime 2026 1 1) (14 * us_per_day) = Inr (mk_datetime 2026 1 15)"
  by code_simp

lemma three_weeks_from_2026_01_15:
  "datetime_add (mk_datetime 2026 1 15) (21 * us_per_day) = Inr (mk_datetime 2026 2 5)"
  by code_simp

lemma two_weeks_from_2026_02_22:
  "datetime_add (mk_datetime 2026 2 22) (14 * us_per_day) = Inr (mk_datetime 2026 3 8)"
  by code_simp


lemma sequential_plan_run:
  "calculate_schedule sequential_plan
     = Inr (sequential_rows, mk_datetime 2026 1 5, mk_datetime 2026 3 31)"
  by code_simp

lemma numeric_end_Inr:
  "numeric_end n v start = Inr e \<longleftrightarrow>
     (\<exists>weeks td. float_of v = Inr weeks \<and> timedelta_weeks weeks = Inr td
        \<and> datetime_add start td = Inr e)"
  by (auto simp: numeric_end_def bind_exn_eq_Inr split: sum.splits exn.splits)

lemma numeric_end_eval:
  assumes "float_of v = Inr weeks" and "timedelta_weeks weeks = Inr td"
    and "datetime_add start td = Inr e"
  shows "numeric_end n v start = Inr e"
  using assms unfolding numeric_end_Inr by blast

lemma resolve_task_sequential:
  assumes "duration_weeks t \<noteq> PyStr ''start2end''" and "manual_start t = None"
    and "resolve_task ps pe cur t = Inr (r, c)"
  shows "Start r = cur \<and> End r = c"
  using assms by (auto simp: resolve_task_numeric bind_exn_eq_Inr mk_row_def)

lemma schedule_loop_contiguous:
  assumes "schedule_loop ps pe [] cur ts = Inr rows"
    and "\<forall>t \<in> set ts. duration_weeks t \<noteq> PyStr ''start2end'' \<and> manual_start t = None"
  shows "(rows \<noteq> [] \<longrightarrow> Start (rows ! 0) = cur)
       \<and> (\<forall>i. Suc i < length rows \<longrightarrow> End (rows ! i) = Start (rows ! Suc i))"
  using assms
proof (induction ts arbitrary: cur rows)
  case Nil
  then show ?case by simp
next
  case (Cons t ts)
  from Cons.prems(1) obtain r c rs where
    r: "resolve_task ps pe cur t = Inr (r, c)" and
    rs: "schedule_loop ps pe [] c ts = Inr rs" and rows: "rows = r # rs"
    by (auto simp: schedule_loop_Cons)
  have t: "duration_weeks t \<noteq> PyStr ''start2end''" "manual_start t = None"
    using Cons.prems(2) by simp_all
  have first: "Start r = cur" and last: "End r = c"
    using resolve_task_sequential [OF t r] by simp_all
  have ih: "(rs \<noteq> [] \<longrightarrow> Start (rs ! 0) = c)
       \<and> (\<forall>i. Suc i < length rs \<longrightarrow> End (rs ! i) = Start (rs ! Suc i))"
    using Cons.IH [OF rs] Cons.prems(2) by simp
  have "End (rows ! i) = Start (rows ! Suc i)" if "Suc i < length rows" for i
  proof (cases i)
    case 0
    then have "rs \<noteq> []" using that rows by auto
    then show ?thesis using 0 rows last ih by simp
  next
    case (Suc j)
    then show ?thesis using that rows ih by simp
  qed
  then show ?case using rows first by simp
qed

text \<open>Every row of a run is what \<open>resolve_task\<close> returns for the task at its position.\<close>

lemma schedule_loop_nth:
  assumes "schedule_loop ps pe [] cur ts = Inr rows" and "i < length ts"
  shows "\<exists>c c'. resolve_task ps pe c (ts ! i) = Inr (rows ! i, c')"
  using assms
proof (induction ts arbitrary: cur rows i)
  case Nil
  then show ?case by simp
next
  case (Cons t ts)
  from Cons.prems(1) obtain r c rs where
    r: "resolve_task ps pe cur t = Inr (r, c)" and
    rs: "schedule_loop ps pe [] c ts = Inr rs" and rows: "rows = r # rs"
    by (auto simp: schedule_loop_Cons)
  show ?case
  proof (cases i)
    case 0
    then show ?thesis
      using r rows by auto
  next
    case (Suc j)
    then show ?thesis
      using Cons.IH [OF rs, of j] Cons.prems(2) rows by simp
  qed
qed

lemma schedule_loop_length:
  assumes "schedule_loop ps pe [] cur ts = Inr rows"
  shows "length rows = length ts"
  using schedule_loop_names [OF assms] by (rule map_eq_imp_length_eq)

text \<open>A duration other than the sentinel reaches its row through \<^verbatim>\<open>float()\<close> and \<^verbatim>\<open>timedelta\<close>.\<close>

lemma resolve_task_routes:
  assumes "duration_weeks t \<noteq> PyStr ''start2end''"
    and "resolve_task ps pe cur t = Inr (r, c)"
  shows "\<exists>w td. float_of (duration_weeks t) = Inr w \<and> timedelta_weeks w = Inr td
           \<and> End r = Start r + td \<and> c = End r"
proof -
  from assms obtain start e where
    e: "numeric_end (name t) (duration_weeks t) start = Inr e"
    and r: "r = mk_row (name t) start e" and c: "c = e"
    by (auto simp: resolve_task_numeric bind_exn_eq_Inr)
  from e obtain w td where
    w: "float_of (duration_weeks t) = Inr w" "timedelta_weeks w = Inr td"
    and a: "datetime_add start td = Inr e"
    by (auto simp: numeric_end_Inr)
  have "e = start + td"
    using a by (auto simp: datetime_add_def Let_def split: if_splits)
  then show ?thesis
    using w r c by (simp add: mk_row_def)
qed

lemma resolve_task_span_End:
  assumes "duration_weeks t = PyStr ''start2end''"
    and "resolve_task ps pe cur t = Inr (r, c)"
  shows "End r = pe"
proof (cases "manual_start t")
  case None
  then show ?thesis
    using assms by (auto simp: resolve_task_span_unanchored mk_row_def)
next
  case (Some s)
  then show ?thesis
    using assms by (auto simp: resolve_task_span_anchored bind_exn_eq_Inr mk_row_def)
qed

lemma schedule_loop_routes:
  assumes "schedule_loop ps pe [] cur ts = Inr rows" and "i < length ts"
    and "duration_weeks (ts ! i) \<noteq> PyStr ''start2end''"
  shows "\<exists>w td. float_of (duration_weeks (ts ! i)) = Inr w \<and> timedelta_weeks w = Inr td
           \<and> End (rows ! i) = Start (rows ! i) + td"
proof -
  obtain c c' where "resolve_task ps pe c (ts ! i) = Inr (rows ! i, c')"
    using schedule_loop_nth [OF assms(1,2)] by blast
  then show ?thesis
    using resolve_task_routes [OF assms(3)] by blast
qed

subsection \<open>The cursor\<close>

text \<open>
  Claim C3. Resolving a span-to-end task leaves the cursor unchanged: the cursor after a
  task whose duration is the sentinel equals the cursor before it, so the tasks that follow
  are scheduled as if the span-to-end task were not there. In particular, for the tasks
  A (2 weeks), B (span-to-end) and C (3 weeks) of a project starting on 2026-01-01, with
  no fixed starts and whatever the project end is, C starts where A ends, on 2026-01-15.
\<close>

theorem C3_span_to_end_keeps_cursor:
  "(duration_weeks t = PyStr ''start2end''
      \<and> resolve_task project_start project_end cursor t = Inr (r, cursor')
    \<longrightarrow> cursor' = cursor
        \<and> schedule_loop project_start project_end [] cursor (t # ts)
            = bind_exn (schedule_loop project_start project_end [] cursor ts)
                (\<lambda>rs. Inr (r # rs)))
   \<and> (parse_date end_str = Inr end_date
    \<longrightarrow> calculate_schedule
          \<lparr>project_start_date = ''2026-01-01'', project_end_date = end_str,
           tasks = [\<lparr>name = ''A'', duration_weeks = PyInt 2, start_date = None\<rparr>,
                    \<lparr>name = ''B'', duration_weeks = PyStr ''start2end'', start_date = None\<rparr>,
                    \<lparr>name = ''C'', duration_weeks = PyInt 3, start_date = None\<rparr>]\<rparr>
        = Inr ([mk_row ''A'' (mk_datetime 2026 1 1) (mk_datetime 2026 1 15),
                mk_row ''B'' (mk_datetime 2026 1 1) end_date,
                mk_row ''C'' (mk_datetime 2026 1 15) (mk_datetime 2026 2 5)],
               mk_datetime 2026 1 1, end_date))"
proof (intro conjI impI)
  assume a: "duration_weeks t = PyStr ''start2end''
      \<and> resolve_task project_start project_end cursor t = Inr (r, cursor')"
  then show same: "cursor' = cursor"
    by (auto simp: resolve_task_def bind_exn_eq_Inr)
  with a show "schedule_loop project_start project_end [] cursor (t # ts)
            = bind_exn (schedule_loop project_start project_end [] cursor ts)
                (\<lambda>rs. Inr (r # rs))"
    by (simp add: schedule_loop_step)
next
  assume e: "parse_date end_str = Inr end_date"
  have A: "numeric_end ''A'' (PyInt 2) (mk_datetime 2026 1 1) = Inr (mk_datetime 2026 1 15)"
    by (rule numeric_end_eval [OF float_of_PyInt_2 timedelta_weeks_2 two_weeks_from_2026_01_01])
  have C: "numeric_end ''C'' (PyInt 3) (mk_datetime 2026 1 15) = Inr (mk_datetime 2026 2 5)"
    by (rule numeric_end_eval [OF float_of_PyInt_3 timedelta_weeks_3 three_weeks_from_2026_01_15])
  show "calculate_schedule
          \<lparr>project_start_date = ''2026-01-01'', project_end_date = end_str,
           tasks = [\<lparr>name = ''A'', duration_weeks = PyInt 2, start_date = None\<rparr>,
                    \<lparr>name = ''B'', duration_weeks = PyStr ''start2end'', start_date = None\<rparr>,
                    \<lparr>name = ''C'', duration_weeks = PyInt 3, start_date = None\<rparr>]\<rparr>
        = Inr ([mk_row ''A'' (mk_datetime 2026 1 1) (mk_datetime 2026 1 15),
                mk_row ''B'' (mk_datetime 2026 1 1) end_date,
                mk_row ''C'' (mk_datetime 2026 1 15) (mk_datetime 2026 2 5)],
               mk_datetime 2026 1 1, end_date)"
    using e A C
    by (simp add: calculate_schedule_def parse_date_2026_01_01 schedule_loop_step
        resolve_task_def manual_start_def)
qed

theorem C3_span_to_end_keeps_cursor_witness:
  "duration_weeks pilot = PyStr ''start2end''
   \<and> resolve_task (mk_datetime 2026 2 1) (mk_datetime 2026 4 1) (mk_datetime 2026 2 22) pilot
       = Inr (mk_row ''Pilot'' (mk_datetime 2026 2 1) (mk_datetime 2026 4 1), mk_datetime 2026 2 22)
   \<and> schedule_loop (mk_datetime 2026 2 1) (mk_datetime 2026 4 1) [] (mk_datetime 2026 2 22)
       [pilot, writeup]
     = Inr [mk_row ''Pilot'' (mk_datetime 2026 2 1) (mk_datetime 2026 4 1),
            mk_row ''Writeup'' (mk_datetime 2026 2 22) (mk_datetime 2026 3 8)]
   \<and> parse_date ''2026-04-01'' = Inr (mk_datetime 2026 4 1)
   \<and> calculate_schedule
       \<lparr>project_start_date = ''2026-01-01'', project_end_date = ''2026-04-01'',
        tasks = [\<lparr>name = ''A'', duration_weeks = PyInt 2, start_date = None\<rparr>,
                 \<lparr>name = ''B'', duration_weeks = PyStr ''start2end'', start_date = None\<rparr>,
                 \<lparr>name = ''C'', duration_weeks = PyInt 3, start_date = None\<rparr>]\<rparr>
     = Inr ([mk_row ''A'' (mk_datetime 2026 1 1) (mk_datetime 2026 1 15),
             mk_row ''B'' (mk_datetime 2026 1 1) (mk_datetime 2026 4 1),
             mk_row ''C'' (mk_datetime 2026 1 15) (mk_datetime 2026 2 5)],
            mk_datetime 2026 1 1, mk_datetime 2026 4 1)"
proof -
  have d: "duration_weeks pilot = PyStr ''start2end''"
    by (simp add: pilot_def)
  have r: "resolve_task (mk_datetime 2026 2 1) (mk_datetime 2026 4 1) (mk_datetime 2026 2 22) pilot
       = Inr (mk_row ''Pilot'' (mk_datetime 2026 2 1) (mk_datetime 2026 4 1), mk_datetime 2026 2 22)"
    by (simp add: resolve_task_def pilot_def manual_start_def)
  have w: "numeric_end ''Writeup'' (PyInt 2) (mk_datetime 2026 2 22) = Inr (mk_datetime 2026 3 8)"
    by (rule numeric_end_eval [OF float_of_PyInt_2 timedelta_weeks_2 two_weeks_from_2026_02_22])
  have rest: "schedule_loop (mk_datetime 2026 2 1) (mk_datetime 2026 4 1) [] (mk_datetime 2026 2 22)
       [writeup] = Inr [mk_row ''Writeup'' (mk_datetime 2026 2 22) (mk_datetime 2026 3 8)]"
    using w by (simp add: schedule_loop_step resolve_task_def writeup_def manual_start_def)
  show ?thesis
    using C3_span_to_end_keeps_cursor
      [of pilot "mk_datetime 2026 2 1" "mk_datetime 2026 4 1" "mk_datetime 2026 2 22"
          "mk_row ''Pilot'' (mk_datetime 2026 2 1) (mk_datetime 2026 4 1)"
          "mk_datetime 2026 2 22" "[writeup]" "''2026-04-01''" "mk_datetime 2026 4 1"]
      d r rest parse_date_2026_04_01
    by simp
qed

subsection \<open>Fixed start dates\<close>



subsection \<open>Sequential tasks\<close>

text \<open>
  Claim C5. When every task has a numeric duration and none has a fixed start date, the
  resolved tasks are contiguous: the first starts at the project start, the date parsed
  from the configuration, and each task starts exactly where the one before it ends.
  The rows are those of the input tasks: there is one per task, in order, carrying the
  name of its task and ending at its start plus the \<^verbatim>\<open>timedelta\<close> of the weeks that
  \<^verbatim>\<open>float()\<close> reads from the duration of that task.
\<close>

theorem C5_numeric_tasks_contiguous:
  assumes "calculate_schedule cfg = Inr (rows, project_start, project_end)"
    and "\<forall>t \<in> set (tasks cfg). duration_weeks t \<noteq> PyStr ''start2end'' \<and> manual_start t = None"
  shows "parse_date (project_start_date cfg) = Inr project_start
       \<and> length rows = length (tasks cfg)
       \<and> (rows \<noteq> [] \<longrightarrow> Start (rows ! 0) = project_start)
       \<and> (\<forall>i. Suc i < length rows \<longrightarrow> End (rows ! i) = Start (rows ! Suc i))
       \<and> (\<forall>i. i < length (tasks cfg) \<longrightarrow>
             Task (rows ! i) = name (tasks cfg ! i)
             \<and> (\<exists>w td. float_of (duration_weeks (tasks cfg ! i)) = Inr w
                    \<and> timedelta_weeks w = Inr td
                    \<and> End (rows ! i) = Start (rows ! i) + td))"
proof -
  have ps: "parse_date (project_start_date cfg) = Inr project_start"
    and loop: "schedule_loop project_start project_end [] project_start (tasks cfg) = Inr rows"
    using assms(1) by (simp_all add: calculate_schedule_Inr)
  have len: "length rows = length (tasks cfg)"
    using loop by (rule schedule_loop_length)
  have contiguous: "(rows \<noteq> [] \<longrightarrow> Start (rows ! 0) = project_start)
       \<and> (\<forall>i. Suc i < length rows \<longrightarrow> End (rows ! i) = Start (rows ! Suc i))"
    using loop assms(2) by (rule schedule_loop_contiguous)
  have each: "Task (rows ! i) = name (tasks cfg ! i)
             \<and> (\<exists>w td. float_of (duration_weeks (tasks cfg ! i)) = Inr w
                    \<and> timedelta_weeks w = Inr td
                    \<and> End (rows ! i) = Start (rows ! i) + td)"
    if i: "i < length (tasks cfg)" for i
  proof -
    have "duration_weeks (tasks cfg ! i) \<noteq> PyStr ''start2end''"
      using assms(2) i by simp
    then have routes: "\<exists>w td. float_of (duration_weeks (tasks cfg ! i)) = Inr w
                    \<and> timedelta_weeks w = Inr td
                    \<and> End (rows ! i) = Start (rows ! i) + td"
      by (rule schedule_loop_routes [OF loop i])
    have "map Task rows ! i = map name (tasks cfg) ! i"
      using schedule_loop_names [OF loop] by simp
    then have "Task (rows ! i) = name (tasks cfg ! i)"
      using i len by simp
    then show ?thesis using routes by simp
  qed
  show ?thesis
    using ps len contiguous each by blast
qed

theorem C5_numeric_tasks_contiguous_witness:
  "calculate_schedule sequential_plan
     = Inr (sequential_rows, mk_datetime 2026 1 5, mk_datetime 2026 3 31)
   \<and> list_all (\<lambda>t. duration_weeks t \<noteq> PyStr ''start2end'' \<and> manual_start t = None)
         (tasks sequential_plan)
   \<and> parse_date (project_start_date sequential_plan) = Inr (mk_datetime 2026 1 5)
   \<and> length sequential_rows = length (tasks sequential_plan)
   \<and> sequential_rows \<noteq> []
   \<and> Start (sequential_rows ! 0) = mk_datetime 2026 1 5
   \<and> Suc 0 < length sequential_rows
   \<and> End (sequential_rows ! 0) = Start (sequential_rows ! Suc 0)
   \<and> Suc 1 < length sequential_rows
   \<and> End (sequential_rows ! 1) = Start (sequential_rows ! Suc 1)
   \<and> 1 < length (tasks sequential_plan)
   \<and> Task (sequential_rows ! 1) = name (tasks sequential_plan ! 1)
   \<and> (\<exists>w td. float_of (duration_weeks (tasks sequential_plan ! 1)) = Inr w
          \<and> timedelta_weeks w = Inr td
          \<and> End (sequential_rows ! 1) = Start (sequential_rows ! 1) + td)"
proof -
  have h: "\<forall>t \<in> set (tasks sequential_plan).
         duration_weeks t \<noteq> PyStr ''start2end'' \<and> manual_start t = None"
    by (simp add: sequential_plan_def manual_start_def)
  have n: "sequential_rows \<noteq> []" "Suc 0 < length sequential_rows" "Suc 1 < length sequential_rows"
    by (simp_all add: sequential_rows_def)
  have m: "1 < length (tasks sequential_plan)"
    by (simp add: sequential_plan_def)
  have l: "list_all (\<lambda>t. duration_weeks t \<noteq> PyStr ''start2end'' \<and> manual_start t = None)
         (tasks sequential_plan)"
    using h by (simp only: list_all_iff)
  show ?thesis
    using C5_numeric_tasks_contiguous [OF sequential_plan_run h] sequential_plan_run l n m
    by blast
qed

subsection \<open>Which exceptions can be raised\<close>

lemma round_double_not_NaN: "round_double q \<noteq> NaN"
  by (simp add: round_double_def Let_def)

lemma float_of_string_error: "float_of_string s = Inl e \<Longrightarrow> e = ValueError"
  by (auto simp: float_of_string_def Let_def split: option.splits prod.splits if_splits)

lemma float_of_PyInt_cases:
  "(\<exists>q. float_of (PyInt n) = Inr (Finite q)) \<or> float_of (PyInt n) = Inl OverflowError"
  by (cases "round_double (of_int n)") simp_all

lemma float_of_error:
  assumes "float_of v = Inl e"
  shows "e = ValueError \<or> e = TypeError \<or> e = OverflowError"
proof (cases v)
  case (PyInt n)
  then show ?thesis using assms float_of_PyInt_cases [of n] by auto
next
  case (PyStr s)
  then show ?thesis using assms float_of_string_error [of s e] by simp
qed (use assms in simp_all)

lemma float_of_ValueError_iff:
  "float_of v = Inl ValueError \<longleftrightarrow> (\<exists>s. v = PyStr s \<and> float_of_string s = Inl ValueError)"
  using float_of_PyInt_cases [of "case v of PyInt n \<Rightarrow> n | _ \<Rightarrow> 0"] by (cases v) auto

lemma float_of_NaN_iff:
  "float_of v = Inr NaN \<longleftrightarrow> v = PyFloat NaN \<or> (\<exists>s. v = PyStr s \<and> float_of_string s = Inr NaN)"
  using float_of_PyInt_cases [of "case v of PyInt n \<Rightarrow> n | _ \<Rightarrow> 0"] by (cases v) auto

lemma float_to_int_round_double:
  "float_to_int (round_double q) = Inl e \<Longrightarrow> e = OverflowError"
  using round_double_not_NaN [of q]
  by (cases "round_double q") (simp_all add: float_to_int_def)

lemma timedelta_weeks_NaN: "timedelta_weeks NaN = Inl ValueError"
  by (simp add: timedelta_weeks_def float_to_int_def)

lemma timedelta_weeks_error:
  assumes "timedelta_weeks w = Inl e"
  shows "(e = ValueError \<and> w = NaN) \<or> e = OverflowError"
proof (cases w)
  case (Finite q)
  show ?thesis
  proof (cases "q - of_int (trunc q) = 0")
    case True
    then show ?thesis
      using assms Finite
      by (auto simp: timedelta_weeks_def float_to_int_def Let_def split: if_splits)
  next
    case False
    show ?thesis
    proof (cases "float_to_int (round_double (of_int us_per_week * (q - of_int (trunc q))))")
      case (Inl e')
      then have "e' = OverflowError" by (rule float_to_int_round_double)
      then show ?thesis
        using assms Finite False Inl
        by (simp add: timedelta_weeks_def float_to_int_def Let_def)
    next
      case (Inr d)
      then show ?thesis
        using assms Finite False
        by (auto simp: timedelta_weeks_def float_to_int_def Let_def split: if_splits)
    qed
  qed
qed (use assms in \<open>simp_all add: timedelta_weeks_def float_to_int_def\<close>)

lemma datetime_add_error: "datetime_add start td = Inl e \<Longrightarrow> e = OverflowError"
  by (auto simp: datetime_add_def Let_def split: if_splits)

lemma datetime_add_Inr: "datetime_add start td = Inr e \<Longrightarrow> e = start + td"
  by (auto simp: datetime_add_def Let_def split: if_splits)

text \<open>The handler fires exactly for a string that does not parse and for NaN.\<close>

lemma numeric_end_InvalidDuration:
  "numeric_end n v start = Inl (InvalidDuration v' n') \<longleftrightarrow>
     v' = v \<and> n' = n \<and> (float_of v = Inl ValueError \<or> float_of v = Inr NaN)"
proof (cases "float_of v")
  case (Inl e)
  then show ?thesis
    using float_of_error [OF Inl] by (auto simp: numeric_end_def)
next
  case (Inr w)
  show ?thesis
  proof (cases "timedelta_weeks w")
    case (Inl e)
    then show ?thesis
      using timedelta_weeks_error [OF Inl] Inr
      by (auto simp: numeric_end_def timedelta_weeks_NaN)
  next
    case td: (Inr td)
    then have "w \<noteq> NaN" by (auto simp: timedelta_weeks_NaN)
    moreover have "numeric_end n v start \<noteq> Inl (InvalidDuration v' n')"
    proof (cases "datetime_add start td")
      case (Inl e)
      then show ?thesis
        using datetime_add_error [OF Inl] Inr td by (simp add: numeric_end_def)
    next
      case (Inr e)
      then show ?thesis
        using \<open>float_of v = Inr w\<close> td by (simp add: numeric_end_def)
    qed
    ultimately show ?thesis using Inr by simp
  qed
qed

lemma numeric_end_ValueError:
  "float_of v = Inl ValueError \<Longrightarrow> numeric_end n v start = Inl (InvalidDuration v n)"
  by (simp add: numeric_end_InvalidDuration)

lemma numeric_end_float_error:
  "float_of v = Inl e \<Longrightarrow> \<exists>e'. numeric_end n v start = Inl e'"
  by (cases e) (simp_all add: numeric_end_def)

text \<open>A task that fails from every cursor makes the whole loop fail.\<close>

lemma schedule_loop_fails:
  assumes "t \<in> set ts" and "\<And>c. \<exists>e. resolve_task ps pe c t = Inl e"
  shows "\<exists>e. schedule_loop ps pe [] cur ts = Inl e"
  using assms(1)
proof (induction ts arbitrary: cur)
  case Nil
  then show ?case by simp
next
  case (Cons x xs)
  show ?case
  proof (cases "resolve_task ps pe cur x")
    case (Inl e)
    then show ?thesis by (simp add: schedule_loop_step)
  next
    case (Inr p)
    obtain r c where p: "p = (r, c)" by (cases p)
    have "x \<noteq> t" using Inr assms(2) [of cur] by auto
    then have "t \<in> set xs" using Cons.prems by simp
    then obtain e where "schedule_loop ps pe [] c xs = Inl e"
      using Cons.IH by blast
    then show ?thesis using Inr p by (simp add: schedule_loop_step)
  qed
qed

text \<open>The loop over a list is the loop over a prefix, continued from where that ended.\<close>

lemma schedule_loop_prefix_fails:
  assumes "schedule_loop ps pe [] cur xs = Inr rows" and "\<And>c. resolve_task ps pe c t = Inl e"
  shows "schedule_loop ps pe [] cur (xs @ t # ys) = Inl e"
  using assms(1)
proof (induction xs arbitrary: cur rows)
  case Nil
  then show ?case using assms(2) by (simp add: schedule_loop_step)
next
  case (Cons x xs)
  from Cons.prems obtain r c rs where
    r: "resolve_task ps pe cur x = Inr (r, c)" and
    rs: "schedule_loop ps pe [] c xs = Inr rs"
    by (auto simp: schedule_loop_Cons)
  show ?case
    using Cons.IH [OF rs] r by (simp add: schedule_loop_step)
qed

subsection \<open>Durations that are not numbers\<close>

lemma start_resolves_cases:
  assumes "manual_start t = None \<or> (\<exists>s d. manual_start t = Some s \<and> parse_date s = Inr d)"
  obtains start where
    "(case manual_start t of Some s \<Rightarrow> parse_date s | None \<Rightarrow> Inr cur) = Inr start"
  using assms by (cases "manual_start t") auto

lemma resolve_task_InvalidDuration:
  assumes "duration_weeks t \<noteq> PyStr ''start2end''"
    and "manual_start t = None \<or> (\<exists>s d. manual_start t = Some s \<and> parse_date s = Inr d)"
  shows "resolve_task ps pe cur t = Inl (InvalidDuration v n) \<longleftrightarrow>
           v = duration_weeks t \<and> n = name t
           \<and> (float_of (duration_weeks t) = Inl ValueError \<or> float_of (duration_weeks t) = Inr NaN)"
proof -
  obtain start where
    s: "(case manual_start t of Some s \<Rightarrow> parse_date s | None \<Rightarrow> Inr cur) = Inr start"
    using assms(2) by (rule start_resolves_cases)
  have "resolve_task ps pe cur t = Inl (InvalidDuration v n) \<longleftrightarrow>
          numeric_end (name t) (duration_weeks t) start = Inl (InvalidDuration v n)"
    using assms(1) s
    by (cases "numeric_end (name t) (duration_weeks t) start")
       (simp_all add: resolve_task_numeric)
  then show ?thesis
    by (simp add: numeric_end_InvalidDuration)
qed

lemma resolve_task_float_error:
  assumes "duration_weeks t \<noteq> PyStr ''start2end''" and "float_of (duration_weeks t) = Inl e"
  shows "\<exists>e'. resolve_task ps pe cur t = Inl e'"
proof (cases "case manual_start t of Some s \<Rightarrow> parse_date s | None \<Rightarrow> Inr cur")
  case (Inl e')
  then show ?thesis using assms(1) by (simp add: resolve_task_numeric)
next
  case (Inr start)
  obtain e' where "numeric_end (name t) (duration_weeks t) start = Inl e'"
    using numeric_end_float_error [OF assms(2)] by blast
  then show ?thesis using assms(1) Inr by (simp add: resolve_task_numeric)
qed

lemma float_of_abc: "float_of (PyStr ''abc'') = Inl ValueError"
  by code_simp

lemma float_of_minus_1: "float_of (PyInt (- 1)) = Inr (Finite (- 1))"
  by code_simp

lemma timedelta_weeks_minus_1: "timedelta_weeks (Finite (- 1)) = Inr (- 7 * us_per_day)"
  by code_simp

lemma one_week_before_2026_02_22:
  "datetime_add (mk_datetime 2026 2 22) (- 7 * us_per_day) = Inr (mk_datetime 2026 2 15)"
  by code_simp

lemma parse_date_2026_02_01: "parse_date ''2026-02-01'' = Inr (mk_datetime 2026 2 1)"
  by code_simp

lemma three_weeks_from_2026_02_01:
  "datetime_add (mk_datetime 2026 2 1) (21 * us_per_day) = Inr (mk_datetime 2026 2 22)"
  by code_simp

lemma rework_resolves:
  "resolve_task (mk_datetime 2026 2 1) (mk_datetime 2026 4 1) (mk_datetime 2026 2 22) rework
     = Inr (mk_row ''Rework'' (mk_datetime 2026 2 22) (mk_datetime 2026 2 15),
            mk_datetime 2026 2 15)"
proof -
  have "numeric_end ''Rework'' (PyInt (- 1)) (mk_datetime 2026 2 22) = Inr (mk_datetime 2026 2 15)"
    by (rule numeric_end_eval [OF float_of_minus_1 timedelta_weeks_minus_1
          one_week_before_2026_02_22])
  then show ?thesis
    by (simp add: resolve_task_def rework_def manual_start_def)
qed

lemma drift_fails:
  "resolve_task (mk_datetime 2026 2 1) (mk_datetime 2026 4 1) (mk_datetime 2026 2 22) drift
     = Inl (InvalidDuration (PyFloat NaN) ''Drift'')"
  by (simp add: resolve_task_def drift_def manual_start_def numeric_end_def timedelta_weeks_NaN)

lemma broken_fails:
  "resolve_task ps pe cur broken = Inl (InvalidDuration (PyStr ''abc'') ''Broken'')"
proof -
  have "numeric_end ''Broken'' (PyStr ''abc'') cur = Inl (InvalidDuration (PyStr ''abc'') ''Broken'')"
    by (rule numeric_end_ValueError [OF float_of_abc])
  then show ?thesis
    by (simp add: resolve_task_def broken_def manual_start_def del: float_of.simps)
qed

text \<open>
  Claim C6, as it is stated: for a duration other than the sentinel the resolver fails with
  the invalid-duration report exactly when the value cannot be parsed as a number, and a
  value that parses must be a non-negative number of weeks. The code differs on both
  counts. A duration of \<open>-1\<close> weeks is accepted, the task ending a week before it starts;
  and the float NaN, which \<^verbatim>\<open>float()\<close> returns as it is, is reported as invalid, because
  the handler also covers the \<^verbatim>\<open>ValueError\<close> that \<^verbatim>\<open>timedelta\<close> raises for it.
\<close>

theorem C6_negative_accepted_nan_reported:
  "resolve_task (mk_datetime 2026 2 1) (mk_datetime 2026 4 1) (mk_datetime 2026 2 22)
       \<lparr>name = ''Rework'', duration_weeks = PyInt (- 1), start_date = None\<rparr>
     = Inr (\<lparr>Task = ''Rework'', Start = mk_datetime 2026 2 22, End = mk_datetime 2026 2 15,
              DurationDays = - 7\<rparr>,
            mk_datetime 2026 2 15)
   \<and> float_of (PyFloat NaN) = Inr NaN
   \<and> resolve_task (mk_datetime 2026 2 1) (mk_datetime 2026 4 1) (mk_datetime 2026 2 22)
       \<lparr>name = ''Drift'', duration_weeks = PyFloat NaN, start_date = None\<rparr>
     = Inl (InvalidDuration (PyFloat NaN) ''Drift'')"
proof -
  have "days_between (mk_datetime 2026 2 15) (mk_datetime 2026 2 22) = - 7"
    by code_simp
  then show ?thesis
    using rework_resolves drift_fails
    by (simp add: rework_def drift_def mk_row_def)
qed

text \<open>
  Claim C6, amended. For a task whose duration is a string or a number other than the
  sentinel, and whose start resolves (no fixed start date, or one that parses), the
  resolver fails with the invalid-duration report, carrying this task's duration value and
  name, if and only if \<^verbatim>\<open>float()\<close> raises \<^verbatim>\<open>ValueError\<close> on the value, which only a
  string that is no float literal does, or the value converts to NaN. Every finite number,
  of either sign, passes without that report.
\<close>

theorem C6_invalid_duration_report:
  assumes "duration_weeks t \<noteq> PyStr ''start2end''"
    and "str_or_number (duration_weeks t)"
    and "manual_start t = None \<or> (\<exists>s d. manual_start t = Some s \<and> parse_date s = Inr d)"
  shows "(resolve_task project_start project_end cursor t
            = Inl (InvalidDuration (duration_weeks t) (name t))
          \<longleftrightarrow> float_of (duration_weeks t) = Inl ValueError
              \<or> float_of (duration_weeks t) = Inr NaN)
       \<and> (\<forall>v n. resolve_task project_start project_end cursor t = Inl (InvalidDuration v n)
              \<longrightarrow> v = duration_weeks t \<and> n = name t)
       \<and> (float_of (duration_weeks t) = Inl ValueError
          \<longleftrightarrow> (\<exists>s. duration_weeks t = PyStr s \<and> float_of_string s = Inl ValueError))
       \<and> (\<forall>q. float_of (duration_weeks t) = Inr (Finite q)
              \<longrightarrow> (\<forall>v n. resolve_task project_start project_end cursor t
                          \<noteq> Inl (InvalidDuration v n)))"
proof -
  have report: "resolve_task project_start project_end cursor t = Inl (InvalidDuration v n)
      \<longleftrightarrow> v = duration_weeks t \<and> n = name t
          \<and> (float_of (duration_weeks t) = Inl ValueError
              \<or> float_of (duration_weeks t) = Inr NaN)" for v n
    by (rule resolve_task_InvalidDuration [OF assms(1) assms(3)])
  have finite: "resolve_task project_start project_end cursor t \<noteq> Inl (InvalidDuration v n)"
    if "float_of (duration_weeks t) = Inr (Finite q)" for q v n
    using that by (simp add: report)
  show ?thesis
    using report finite float_of_ValueError_iff [of "duration_weeks t"] by blast
qed

theorem C6_invalid_duration_report_witness:
  "duration_weeks broken \<noteq> PyStr ''start2end'' \<and> str_or_number (duration_weeks broken)
   \<and> manual_start broken = None
   \<and> float_of (duration_weeks broken) = Inl ValueError
   \<and> resolve_task (mk_datetime 2026 2 1) (mk_datetime 2026 4 1) (mk_datetime 2026 2 22) broken
       = Inl (InvalidDuration (duration_weeks broken) (name broken))
   \<and> duration_weeks rework \<noteq> PyStr ''start2end'' \<and> str_or_number (duration_weeks rework)
   \<and> manual_start rework = None
   \<and> float_of (duration_weeks rework) = Inr (Finite (- 1))
   \<and> (\<forall>v n. resolve_task (mk_datetime 2026 2 1) (mk_datetime 2026 4 1) (mk_datetime 2026 2 22)
               rework \<noteq> Inl (InvalidDuration v n))"
proof -
  have b: "duration_weeks broken \<noteq> PyStr ''start2end''" "str_or_number (duration_weeks broken)"
    "manual_start broken = None"
    by (simp_all add: broken_def manual_start_def)
  have bf: "float_of (duration_weeks broken) = Inl ValueError"
    using float_of_abc by (simp add: broken_def)
  have r: "duration_weeks rework \<noteq> PyStr ''start2end''" "str_or_number (duration_weeks rework)"
    "manual_start rework = None"
    by (simp_all add: rework_def manual_start_def)
  have rf: "float_of (duration_weeks rework) = Inr (Finite (- 1))"
    using float_of_minus_1 by (simp add: rework_def)
  show ?thesis
    using C6_invalid_duration_report
        [of broken "mk_datetime 2026 2 1" "mk_datetime 2026 4 1" "mk_datetime 2026 2 22"]
      C6_invalid_duration_report
        [of rework "mk_datetime 2026 2 1" "mk_datetime 2026 4 1" "mk_datetime 2026 2 22"]
      b bf r rf
    by blast
qed

text \<open>
  When the duration of a task is neither the sentinel nor something \<^verbatim>\<open>float()\<close> accepts,
  the run returns no rows at all, whatever the other tasks are. When the failure is a
  parse failure (\<^verbatim>\<open>ValueError\<close>, as for \<^verbatim>\<open>abc\<close>) and the run gets as far as that task,
  that is, the project dates parse, the tasks before it resolve and its own start
  resolves, the run ends with the invalid-duration report naming this task and its value:
  the rows of the tasks before it are discarded.
\<close>

lemma unparsable_duration_aborts_run:
  assumes "i < length (tasks cfg)"
    and "duration_weeks (tasks cfg ! i) \<noteq> PyStr ''start2end''"
    and "float_of (duration_weeks (tasks cfg ! i)) = Inl err"
  shows "(\<exists>e. calculate_schedule cfg = Inl e)
       \<and> (err = ValueError
          \<and> parse_date (project_start_date cfg) = Inr project_start
          \<and> parse_date (project_end_date cfg) = Inr project_end
          \<and> schedule_loop project_start project_end [] project_start (take i (tasks cfg))
              = Inr rows_before
          \<and> (manual_start (tasks cfg ! i) = None
              \<or> (\<exists>s d. manual_start (tasks cfg ! i) = Some s \<and> parse_date s = Inr d))
          \<longrightarrow> calculate_schedule cfg
                = Inl (InvalidDuration (duration_weeks (tasks cfg ! i)) (name (tasks cfg ! i))))"
proof (intro conjI impI)
  have mem: "tasks cfg ! i \<in> set (tasks cfg)"
    using assms(1) by simp
  have fails: "\<exists>e. resolve_task ps pe c (tasks cfg ! i) = Inl e" for ps pe c
    using assms(2,3) by (rule resolve_task_float_error)
  show "\<exists>e. calculate_schedule cfg = Inl e"
  proof (cases "parse_date (project_start_date cfg)")
    case (Inl e)
    then show ?thesis by (simp add: calculate_schedule_def)
  next
    case ps: (Inr ps)
    show ?thesis
    proof (cases "parse_date (project_end_date cfg)")
      case (Inl e)
      then show ?thesis using ps by (simp add: calculate_schedule_def)
    next
      case pe: (Inr pe)
      obtain e where "schedule_loop ps pe [] ps (tasks cfg) = Inl e"
        using schedule_loop_fails [OF mem fails] by blast
      then show ?thesis using ps pe by (simp add: calculate_schedule_def)
    qed
  qed
next
  assume a: "err = ValueError
          \<and> parse_date (project_start_date cfg) = Inr project_start
          \<and> parse_date (project_end_date cfg) = Inr project_end
          \<and> schedule_loop project_start project_end [] project_start (take i (tasks cfg))
              = Inr rows_before
          \<and> (manual_start (tasks cfg ! i) = None
              \<or> (\<exists>s d. manual_start (tasks cfg ! i) = Some s \<and> parse_date s = Inr d))"
  let ?t = "tasks cfg ! i"
  have one: "resolve_task project_start project_end c ?t
               = Inl (InvalidDuration (duration_weeks ?t) (name ?t))" for c
    using a assms(3) resolve_task_InvalidDuration [OF assms(2), of project_start project_end c]
    by simp
  have split: "tasks cfg = take i (tasks cfg) @ ?t # drop (Suc i) (tasks cfg)"
    using assms(1) by (rule id_take_nth_drop)
  have "schedule_loop project_start project_end [] project_start
          (take i (tasks cfg) @ ?t # drop (Suc i) (tasks cfg))
        = Inl (InvalidDuration (duration_weeks ?t) (name ?t))"
    using a one by (intro schedule_loop_prefix_fails) auto
  then have "schedule_loop project_start project_end [] project_start (tasks cfg)
        = Inl (InvalidDuration (duration_weeks ?t) (name ?t))"
    using split by simp
  then show "calculate_schedule cfg = Inl (InvalidDuration (duration_weeks ?t) (name ?t))"
    using a by (simp add: calculate_schedule_def)
qed

lemma broken_plan_aborts:
  "(1 :: nat) < length (tasks broken_plan)
   \<and> duration_weeks (tasks broken_plan ! 1) = PyStr ''abc''
   \<and> PyStr ''abc'' \<noteq> PyStr ''start2end''
   \<and> float_of (PyStr ''abc'') = Inl ValueError
   \<and> parse_date (project_start_date broken_plan) = Inr (mk_datetime 2026 2 1)
   \<and> parse_date (project_end_date broken_plan) = Inr (mk_datetime 2026 4 1)
   \<and> schedule_loop (mk_datetime 2026 2 1) (mk_datetime 2026 4 1) [] (mk_datetime 2026 2 1)
        (take 1 (tasks broken_plan))
       = Inr [mk_row ''Lit Review'' (mk_datetime 2026 2 1) (mk_datetime 2026 2 22)]
   \<and> manual_start (tasks broken_plan ! 1) = None
   \<and> calculate_schedule broken_plan = Inl (InvalidDuration (PyStr ''abc'') ''Broken'')"
proof -
  have t: "tasks broken_plan ! 1 = broken" "(1 :: nat) < length (tasks broken_plan)"
    by (simp_all add: broken_plan_def)
  have d: "duration_weeks (tasks broken_plan ! 1) = PyStr ''abc''"
    "name (tasks broken_plan ! 1) = ''Broken''"
    "manual_start (tasks broken_plan ! 1) = None"
    by (simp_all add: broken_plan_def broken_def manual_start_def)
  have ne: "duration_weeks (tasks broken_plan ! 1) \<noteq> PyStr ''start2end''"
    unfolding d by simp
  have f: "float_of (duration_weeks (tasks broken_plan ! 1)) = Inl ValueError"
    using float_of_abc by (simp only: d)
  have ps: "parse_date (project_start_date broken_plan) = Inr (mk_datetime 2026 2 1)"
    and pe: "parse_date (project_end_date broken_plan) = Inr (mk_datetime 2026 4 1)"
    by (simp_all add: broken_plan_def parse_date_2026_02_01 parse_date_2026_04_01)
  have lit: "numeric_end ''Lit Review'' (PyInt 3) (mk_datetime 2026 2 1)
               = Inr (mk_datetime 2026 2 22)"
    by (rule numeric_end_eval [OF float_of_PyInt_3 timedelta_weeks_3 three_weeks_from_2026_02_01])
  have before: "schedule_loop (mk_datetime 2026 2 1) (mk_datetime 2026 4 1) []
        (mk_datetime 2026 2 1) (take 1 (tasks broken_plan))
       = Inr [mk_row ''Lit Review'' (mk_datetime 2026 2 1) (mk_datetime 2026 2 22)]"
    using lit
    by (simp add: broken_plan_def schedule_loop_step resolve_task_def manual_start_def
        del: float_of.simps)
  show ?thesis
    using unparsable_duration_aborts_run [OF t(2) ne f,
        of "mk_datetime 2026 2 1" "mk_datetime 2026 4 1"
           "[mk_row ''Lit Review'' (mk_datetime 2026 2 1) (mk_datetime 2026 2 22)]"]
      t(2) d ps pe before float_of_abc
    by (simp del: float_of.simps)
qed

text \<open>
  Claim C8. A task whose duration is neither the sentinel nor parseable as a number makes
  the run fail naming that task, with no resolved tasks at all. The handler around
  \<^verbatim>\<open>float()\<close> catches \<^verbatim>\<open>ValueError\<close> only, so this holds for a string such as \<^verbatim>\<open>abc\<close>
  and is missed for a null duration: there \<^verbatim>\<open>float()\<close> raises \<^verbatim>\<open>TypeError\<close>, and the
  run of the plan below ends with that exception, which names no task, where the same
  plan with \<^verbatim>\<open>abc\<close> ends with the report naming the task \<^verbatim>\<open>Broken\<close>.
\<close>

theorem C8_null_duration_escapes_report:
  "calculate_schedule
     \<lparr>project_start_date = ''2026-02-01'', project_end_date = ''2026-04-01'',
      tasks = [\<lparr>name = ''Lit Review'', duration_weeks = PyInt 3, start_date = None\<rparr>,
               \<lparr>name = ''Broken'', duration_weeks = PyNone, start_date = None\<rparr>,
               \<lparr>name = ''Writeup'', duration_weeks = PyInt 2, start_date = None\<rparr>]\<rparr>
     = Inl TypeError
   \<and> calculate_schedule
     \<lparr>project_start_date = ''2026-02-01'', project_end_date = ''2026-04-01'',
      tasks = [\<lparr>name = ''Lit Review'', duration_weeks = PyInt 3, start_date = None\<rparr>,
               \<lparr>name = ''Broken'', duration_weeks = PyStr ''abc'', start_date = None\<rparr>,
               \<lparr>name = ''Writeup'', duration_weeks = PyInt 2, start_date = None\<rparr>]\<rparr>
     = Inl (InvalidDuration (PyStr ''abc'') ''Broken'')"
proof -
  have lit: "numeric_end ''Lit Review'' (PyInt 3) (mk_datetime 2026 2 1)
               = Inr (mk_datetime 2026 2 22)"
    by (rule numeric_end_eval [OF float_of_PyInt_3 timedelta_weeks_3 three_weeks_from_2026_02_01])
  have null: "numeric_end ''Broken'' PyNone c = Inl TypeError" for c
    by (simp add: numeric_end_def)
  have abc: "numeric_end ''Broken'' (PyStr ''abc'') c
               = Inl (InvalidDuration (PyStr ''abc'') ''Broken'')" for c
    by (rule numeric_end_ValueError [OF float_of_abc])
  show ?thesis
    using lit null abc
    by (simp add: calculate_schedule_def parse_date_2026_02_01 parse_date_2026_04_01
        schedule_loop_step resolve_task_def manual_start_def del: float_of.simps)
qed

subsection \<open>The sentinel test and numeric strings\<close>

lemma numeric_end_same_float:
  assumes "float_of v1 = Inr w" and "float_of v2 = Inr w" and "w \<noteq> NaN"
  shows "numeric_end n v1 start = numeric_end n v2 start"
proof (cases "timedelta_weeks w")
  case (Inl e)
  then have "e = OverflowError"
    using timedelta_weeks_error [OF Inl] assms(3) by simp
  then show ?thesis using assms Inl by (simp add: numeric_end_def)
next
  case (Inr td)
  show ?thesis
  proof (cases "datetime_add start td")
    case (Inl e)
    then have "e = OverflowError" by (rule datetime_add_error)
    then show ?thesis
      using assms Inl \<open>timedelta_weeks w = Inr td\<close> by (simp add: numeric_end_def)
  next
    case e: (Inr e)
    then show ?thesis
      using assms \<open>timedelta_weeks w = Inr td\<close> by (simp add: numeric_end_def)
  qed
qed

lemma resolve_task_same_float:
  assumes "v1 \<noteq> PyStr ''start2end''" and "v2 \<noteq> PyStr ''start2end''"
    and "float_of v1 = Inr w" and "float_of v2 = Inr w" and "w \<noteq> NaN"
  shows "resolve_task ps pe cur (t\<lparr>duration_weeks := v1\<rparr>)
           = resolve_task ps pe cur (t\<lparr>duration_weeks := v2\<rparr>)"
  using assms(1,2) numeric_end_same_float [OF assms(3,4,5)]
  by (simp add: resolve_task_numeric manual_start_def)

lemma schedule_loop_cong:
  assumes "\<And>c. resolve_task ps pe c t = resolve_task ps pe c t'"
  shows "schedule_loop ps pe [] cur (xs @ t # ys) = schedule_loop ps pe [] cur (xs @ t' # ys)"
proof (induction xs arbitrary: cur)
  case Nil
  show ?case using assms by (simp add: schedule_loop_step)
next
  case (Cons x xs)
  show ?case
    by (cases "resolve_task ps pe cur x") (auto simp: schedule_loop_step Cons.IH)
qed

lemma float_of_str_2: "float_of (PyStr ''2'') = Inr (Finite 2)"
  by code_simp

lemma float_of_str_2_5: "float_of (PyStr ''2.5'') = Inr (Finite (5 / 2))"
  by code_simp

lemma float_of_capitalised_sentinel: "float_of (PyStr ''Start2End'') = Inl ValueError"
  by code_simp

lemma float_of_padded_sentinel: "float_of (PyStr ''start2end '') = Inl ValueError"
  by code_simp

lemma draft_plan_run:
  "calculate_schedule draft_plan
     = Inr ([\<lparr>Task = ''Draft'', Start = mk_datetime 2026 1 5,
                End = mk_datetime 2026 1 22 + 12 * 3600000000, DurationDays = 17\<rparr>],
            mk_datetime 2026 1 5, mk_datetime 2026 3 31)"
  by code_simp

lemma timedelta_weeks_2_5: "timedelta_weeks (Finite (5 / 2)) = Inr 1512000000000"
  by code_simp

lemma two_and_a_half_weeks_from_2026_01_05:
  "datetime_add (mk_datetime 2026 1 5) 1512000000000
     = Inr (mk_datetime 2026 1 22 + 12 * 3600000000)"
  by code_simp

text \<open>
  Claim C10. The sentinel is recognised by an exact comparison with the string
  \<^verbatim>\<open>start2end\<close>; every other duration value goes through \<^verbatim>\<open>float()\<close>. In a run that
  returns, the row of a sentinel task ends at the project end, and the row of any other
  task ends at its start plus the \<^verbatim>\<open>timedelta\<close> of the weeks that \<^verbatim>\<open>float()\<close> reads from
  its duration; a run with a task whose duration is not the sentinel and is refused by
  \<^verbatim>\<open>float()\<close> returns no rows. So a string that holds a number is accepted: when its
  start resolves and the end date is in range, the task resolves to the row from that
  start to the start plus the weeks read from the string, and so does the task with any
  numeric value of the same float in its place. Replacing the string by such a value in
  any task of any plan gives the same result of the whole run, and when that run returns,
  the row of the task spans the weeks read from the string. \<^verbatim>\<open>"2"\<close> has the float of the
  integer 2 and \<^verbatim>\<open>"2.5"\<close> the float 2.5, while \<^verbatim>\<open>Start2End\<close> and \<^verbatim>\<open>start2end\<close> with a
  trailing space are not the sentinel and are reported as invalid durations.
\<close>

theorem C10_numeric_strings_accepted:
  "(calculate_schedule cfg = Inr (rows, ps, pe) \<and> i < length (tasks cfg)
    \<longrightarrow> (duration_weeks (tasks cfg ! i) = PyStr ''start2end'' \<longrightarrow> End (rows ! i) = pe)
        \<and> (duration_weeks (tasks cfg ! i) \<noteq> PyStr ''start2end''
            \<longrightarrow> (\<exists>weeks td. float_of (duration_weeks (tasks cfg ! i)) = Inr weeks
                   \<and> timedelta_weeks weeks = Inr td
                   \<and> End (rows ! i) = Start (rows ! i) + td)))
   \<and> (i < length (tasks cfg) \<and> duration_weeks (tasks cfg ! i) \<noteq> PyStr ''start2end''
       \<and> float_of (duration_weeks (tasks cfg ! i)) = Inl err
    \<longrightarrow> (\<exists>x. calculate_schedule cfg = Inl x))
   \<and> (duration_weeks t = PyStr s \<and> s \<noteq> ''start2end''
       \<and> (case manual_start t of Some d \<Rightarrow> parse_date d | None \<Rightarrow> Inr cursor) = Inr start
       \<and> float_of (PyStr s) = Inr w \<and> timedelta_weeks w = Inr delta
       \<and> datetime_add start delta = Inr end_date
    \<longrightarrow> resolve_task project_start project_end cursor t
          = Inr (mk_row (name t) start end_date, end_date)
        \<and> (float_of v = Inr w \<and> v \<noteq> PyStr ''start2end''
            \<longrightarrow> resolve_task project_start project_end cursor (t\<lparr>duration_weeks := v\<rparr>)
                  = Inr (mk_row (name t) start end_date, end_date)))
   \<and> (i < length (tasks cfg) \<and> duration_weeks (tasks cfg ! i) = PyStr s \<and> s \<noteq> ''start2end''
      \<and> float_of (PyStr s) = Inr w \<and> w \<noteq> NaN
      \<and> float_of v = Inr w \<and> v \<noteq> PyStr ''start2end''
    \<longrightarrow> calculate_schedule (cfg\<lparr>tasks := (tasks cfg)[i := (tasks cfg ! i)\<lparr>duration_weeks := v\<rparr>]\<rparr>)
          = calculate_schedule cfg
        \<and> (calculate_schedule
              (cfg\<lparr>tasks := (tasks cfg)[i := (tasks cfg ! i)\<lparr>duration_weeks := v\<rparr>]\<rparr>)
              = Inr (rows, ps, pe)
            \<longrightarrow> calculate_schedule cfg = Inr (rows, ps, pe)
                \<and> (\<exists>td. timedelta_weeks w = Inr td \<and> End (rows ! i) = Start (rows ! i) + td)))
   \<and> float_of (PyStr ''2'') = float_of (PyInt 2)
   \<and> float_of (PyStr ''2.5'') = float_of (PyFloat (Finite (5 / 2)))
   \<and> resolve_task project_start project_end cursor
        \<lparr>name = n, duration_weeks = PyStr ''Start2End'', start_date = None\<rparr>
       = Inl (InvalidDuration (PyStr ''Start2End'') n)
   \<and> resolve_task project_start project_end cursor
        \<lparr>name = n, duration_weeks = PyStr ''start2end '', start_date = None\<rparr>
       = Inl (InvalidDuration (PyStr ''start2end '') n)"
proof -
  have routed: "(duration_weeks (tasks cfg ! i) = PyStr ''start2end'' \<longrightarrow> End (rows ! i) = pe)
        \<and> (duration_weeks (tasks cfg ! i) \<noteq> PyStr ''start2end''
            \<longrightarrow> (\<exists>weeks td. float_of (duration_weeks (tasks cfg ! i)) = Inr weeks
                   \<and> timedelta_weeks weeks = Inr td
                   \<and> End (rows ! i) = Start (rows ! i) + td))"
    if run: "calculate_schedule cfg = Inr (rows, ps, pe)" and i: "i < length (tasks cfg)"
    for cfg :: config and rows ps pe i
  proof -
    have loop: "schedule_loop ps pe [] ps (tasks cfg) = Inr rows"
      using run by (simp add: calculate_schedule_Inr)
    obtain c c' where r: "resolve_task ps pe c (tasks cfg ! i) = Inr (rows ! i, c')"
      using schedule_loop_nth [OF loop i] by blast
    have "End (rows ! i) = pe" if "duration_weeks (tasks cfg ! i) = PyStr ''start2end''"
      using that r by (rule resolve_task_span_End)
    moreover have "\<exists>weeks td. float_of (duration_weeks (tasks cfg ! i)) = Inr weeks
                   \<and> timedelta_weeks weeks = Inr td
                   \<and> End (rows ! i) = Start (rows ! i) + td"
      if "duration_weeks (tasks cfg ! i) \<noteq> PyStr ''start2end''"
      using loop i that by (rule schedule_loop_routes)
    ultimately show ?thesis by blast
  qed
  have refused: "\<exists>x. calculate_schedule cfg = Inl x"
    if "i < length (tasks cfg)" and "duration_weeks (tasks cfg ! i) \<noteq> PyStr ''start2end''"
      and "float_of (duration_weeks (tasks cfg ! i)) = Inl err"
    using unparsable_duration_aborts_run [OF that] by blast
  have accepted: "resolve_task project_start project_end cursor t
          = Inr (mk_row (name t) start end_date, end_date)
        \<and> (float_of v = Inr w \<and> v \<noteq> PyStr ''start2end''
            \<longrightarrow> resolve_task project_start project_end cursor (t\<lparr>duration_weeks := v\<rparr>)
                  = Inr (mk_row (name t) start end_date, end_date))"
    if d: "duration_weeks t = PyStr s" and ne: "s \<noteq> ''start2end''"
      and st: "(case manual_start t of Some d \<Rightarrow> parse_date d | None \<Rightarrow> Inr cursor) = Inr start"
      and f: "float_of (PyStr s) = Inr w" and td: "timedelta_weeks w = Inr delta"
      and e: "datetime_add start delta = Inr end_date"
  proof (intro conjI impI)
    have "numeric_end (name t) (duration_weeks t) start = Inr end_date"
      unfolding d by (rule numeric_end_eval [OF f td e])
    moreover have "duration_weeks t \<noteq> PyStr ''start2end''"
      using d ne by simp
    ultimately show "resolve_task project_start project_end cursor t
          = Inr (mk_row (name t) start end_date, end_date)"
      using st by (simp add: resolve_task_numeric del: float_of.simps)
  next
    assume v: "float_of v = Inr w \<and> v \<noteq> PyStr ''start2end''"
    let ?t = "t\<lparr>duration_weeks := v\<rparr>"
    have ms: "manual_start ?t = manual_start t"
      by (simp add: manual_start_def)
    have "numeric_end (name ?t) (duration_weeks ?t) start = Inr end_date"
      using v td e by (simp add: numeric_end_eval del: float_of.simps)
    moreover have "duration_weeks ?t \<noteq> PyStr ''start2end''"
      using v by simp
    ultimately have "resolve_task project_start project_end cursor ?t
          = Inr (mk_row (name ?t) start end_date, end_date)"
      using st ms by (simp add: resolve_task_numeric del: float_of.simps)
    then show "resolve_task project_start project_end cursor ?t
          = Inr (mk_row (name t) start end_date, end_date)"
      by simp
  qed
  have replaced: "calculate_schedule
               (cfg\<lparr>tasks := (tasks cfg)[i := (tasks cfg ! i)\<lparr>duration_weeks := v\<rparr>]\<rparr>)
             = calculate_schedule cfg"
    if a: "i < length (tasks cfg) \<and> duration_weeks (tasks cfg ! i) = PyStr s
      \<and> s \<noteq> ''start2end'' \<and> float_of (PyStr s) = Inr w \<and> w \<noteq> NaN
      \<and> float_of v = Inr w \<and> v \<noteq> PyStr ''start2end''"
  proof -
    let ?t = "tasks cfg ! i"
    let ?xs = "take i (tasks cfg)" and ?ys = "drop (Suc i) (tasks cfg)"
    have t: "?t = ?t\<lparr>duration_weeks := PyStr s\<rparr>"
      using a by simp
    have same: "resolve_task ps pe c ?t = resolve_task ps pe c (?t\<lparr>duration_weeks := v\<rparr>)"
      for ps pe c
      using a resolve_task_same_float [of "PyStr s" v w ps pe c ?t] t
      by (simp del: float_of.simps)
    have old: "tasks cfg = ?xs @ ?t # ?ys"
      using a by (intro id_take_nth_drop) simp
    have new: "(tasks cfg)[i := ?t\<lparr>duration_weeks := v\<rparr>] = ?xs @ ?t\<lparr>duration_weeks := v\<rparr> # ?ys"
      using a by (intro upd_conv_take_nth_drop) simp
    have "schedule_loop ps pe [] c ((tasks cfg)[i := ?t\<lparr>duration_weeks := v\<rparr>])
            = schedule_loop ps pe [] c (tasks cfg)" for ps pe c
      using schedule_loop_cong [of ps pe ?t "?t\<lparr>duration_weeks := v\<rparr>" c ?xs ?ys, OF same]
        old new
      by simp
    then show ?thesis
      by (simp add: calculate_schedule_def)
  qed
  have spans: "calculate_schedule cfg = Inr (rows, ps, pe)
                \<and> (\<exists>td. timedelta_weeks w = Inr td \<and> End (rows ! i) = Start (rows ! i) + td)"
    if a: "i < length (tasks cfg) \<and> duration_weeks (tasks cfg ! i) = PyStr s
      \<and> s \<noteq> ''start2end'' \<and> float_of (PyStr s) = Inr w \<and> w \<noteq> NaN
      \<and> float_of v = Inr w \<and> v \<noteq> PyStr ''start2end''"
      and run: "calculate_schedule
              (cfg\<lparr>tasks := (tasks cfg)[i := (tasks cfg ! i)\<lparr>duration_weeks := v\<rparr>]\<rparr>)
              = Inr (rows, ps, pe)"
  proof -
    have run': "calculate_schedule cfg = Inr (rows, ps, pe)"
      using replaced [OF a] run by simp
    have ne: "duration_weeks (tasks cfg ! i) \<noteq> PyStr ''start2end''"
      using a by simp
    obtain weeks td where "float_of (duration_weeks (tasks cfg ! i)) = Inr weeks"
      and td: "timedelta_weeks weeks = Inr td" "End (rows ! i) = Start (rows ! i) + td"
      using routed [OF run'] a ne by blast
    moreover have "float_of (duration_weeks (tasks cfg ! i)) = Inr w"
      using a by (simp del: float_of.simps)
    ultimately have "weeks = w" by simp
    then show ?thesis using run' td by blast
  qed
  have two: "float_of (PyStr ''2'') = float_of (PyInt 2)"
    by (simp only: float_of_str_2 float_of_PyInt_2)
  have two_and_a_half: "float_of (PyStr ''2.5'') = float_of (PyFloat (Finite (5 / 2)))"
    unfolding float_of_str_2_5 by simp
  have "numeric_end n (PyStr ''Start2End'') cursor = Inl (InvalidDuration (PyStr ''Start2End'') n)"
    by (rule numeric_end_ValueError [OF float_of_capitalised_sentinel])
  then have capitalised: "resolve_task project_start project_end cursor
        \<lparr>name = n, duration_weeks = PyStr ''Start2End'', start_date = None\<rparr>
       = Inl (InvalidDuration (PyStr ''Start2End'') n)"
    by (simp add: resolve_task_def manual_start_def del: float_of.simps)
  have "numeric_end n (PyStr ''start2end '') cursor
          = Inl (InvalidDuration (PyStr ''start2end '') n)"
    by (rule numeric_end_ValueError [OF float_of_padded_sentinel])
  then have padded: "resolve_task project_start project_end cursor
        \<lparr>name = n, duration_weeks = PyStr ''start2end '', start_date = None\<rparr>
       = Inl (InvalidDuration (PyStr ''start2end '') n)"
    by (simp add: resolve_task_def manual_start_def del: float_of.simps)
  show ?thesis
    apply (intro conjI impI)
    subgoal using routed by blast
    subgoal using routed by blast
    subgoal using refused by blast
    subgoal using accepted by blast
    subgoal using accepted by blast
    subgoal using replaced by blast
    subgoal using spans by blast
    subgoal using spans by blast
    subgoal by (rule two)
    subgoal by (rule two_and_a_half)
    subgoal by (rule capitalised)
    subgoal by (rule padded)
    done
qed

theorem C10_numeric_strings_accepted_witness:
  "calculate_schedule draft_plan
     = Inr ([\<lparr>Task = ''Draft'', Start = mk_datetime 2026 1 5,
                End = mk_datetime 2026 1 22 + 12 * 3600000000, DurationDays = 17\<rparr>],
            mk_datetime 2026 1 5, mk_datetime 2026 3 31)
   \<and> (0 :: nat) < length (tasks draft_plan)
   \<and> duration_weeks (tasks draft_plan ! 0) = PyStr ''2.5'' \<and> ''2.5'' \<noteq> ''start2end''
   \<and> PyStr ''2.5'' \<noteq> PyStr ''start2end''
   \<and> (\<exists>weeks td. float_of (PyStr ''2.5'') = Inr weeks \<and> timedelta_weeks weeks = Inr td
          \<and> mk_datetime 2026 1 22 + 12 * 3600000000 = mk_datetime 2026 1 5 + td)
   \<and> (1 :: nat) < length (tasks broken_plan)
   \<and> duration_weeks (tasks broken_plan ! 1) \<noteq> PyStr ''start2end''
   \<and> float_of (duration_weeks (tasks broken_plan ! 1)) = Inl ValueError
   \<and> (\<exists>x. calculate_schedule broken_plan = Inl x)
   \<and> manual_start (tasks draft_plan ! 0) = None
   \<and> float_of (PyStr ''2.5'') = Inr (Finite (5 / 2))
   \<and> timedelta_weeks (Finite (5 / 2)) = Inr 1512000000000
   \<and> datetime_add (mk_datetime 2026 1 5) 1512000000000
       = Inr (mk_datetime 2026 1 22 + 12 * 3600000000)
   \<and> resolve_task (mk_datetime 2026 1 5) (mk_datetime 2026 3 31) (mk_datetime 2026 1 5)
         (tasks draft_plan ! 0)
       = Inr (mk_row ''Draft'' (mk_datetime 2026 1 5) (mk_datetime 2026 1 22 + 12 * 3600000000),
              mk_datetime 2026 1 22 + 12 * 3600000000)
   \<and> float_of (PyFloat (Finite (5 / 2))) = Inr (Finite (5 / 2))
   \<and> PyFloat (Finite (5 / 2)) \<noteq> PyStr ''start2end''
   \<and> resolve_task (mk_datetime 2026 1 5) (mk_datetime 2026 3 31) (mk_datetime 2026 1 5)
         ((tasks draft_plan ! 0)\<lparr>duration_weeks := PyFloat (Finite (5 / 2))\<rparr>)
       = Inr (mk_row ''Draft'' (mk_datetime 2026 1 5) (mk_datetime 2026 1 22 + 12 * 3600000000),
              mk_datetime 2026 1 22 + 12 * 3600000000)
   \<and> Finite (5 / 2) \<noteq> NaN
   \<and> calculate_schedule
       (draft_plan\<lparr>tasks := (tasks draft_plan)
          [0 := (tasks draft_plan ! 0)\<lparr>duration_weeks := PyFloat (Finite (5 / 2))\<rparr>]\<rparr>)
     = calculate_schedule draft_plan"
proof -
  let ?rows = "[\<lparr>Task = ''Draft'', Start = mk_datetime 2026 1 5,
                End = mk_datetime 2026 1 22 + 12 * 3600000000, DurationDays = 17\<rparr>]"
  let ?t = "tasks draft_plan ! 0"
  have h: "(0 :: nat) < length (tasks draft_plan)"
    "duration_weeks ?t = PyStr ''2.5''" "manual_start ?t = None" "name ?t = ''Draft''"
    by (simp_all add: draft_plan_def manual_start_def)
  have st: "(case manual_start ?t of Some d \<Rightarrow> parse_date d | None \<Rightarrow> Inr (mk_datetime 2026 1 5))
              = Inr (mk_datetime 2026 1 5)"
    by (simp add: h(3))
  have f: "float_of (PyFloat (Finite (5 / 2))) = Inr (Finite (5 / 2))"
    by simp
  have ne: "''2.5'' \<noteq> ''start2end''" "Finite (5 / 2) \<noteq> NaN"
    "PyFloat (Finite (5 / 2)) \<noteq> PyStr ''start2end''" "PyStr ''2.5'' \<noteq> PyStr ''start2end''"
    by simp_all
  have b: "(1 :: nat) < length (tasks broken_plan)"
    "duration_weeks (tasks broken_plan ! 1) = PyStr ''abc''"
    by (simp_all add: broken_plan_def broken_def)
  have bne: "duration_weeks (tasks broken_plan ! 1) \<noteq> PyStr ''start2end''"
    unfolding b(2) by simp
  have bf: "float_of (duration_weeks (tasks broken_plan ! 1)) = Inl ValueError"
    using float_of_abc by (simp only: b(2))
  note draft = C10_numeric_strings_accepted
      [where cfg = draft_plan
         and rows = "[\<lparr>Task = ''Draft'', Start = mk_datetime 2026 1 5,
                End = mk_datetime 2026 1 22 + 12 * 3600000000, DurationDays = 17\<rparr>]"
         and ps = "mk_datetime 2026 1 5" and pe = "mk_datetime 2026 3 31" and i = 0
         and t = "tasks draft_plan ! 0" and s = "''2.5''"
         and cursor = "mk_datetime 2026 1 5" and start = "mk_datetime 2026 1 5"
         and w = "Finite (5 / 2)" and delta = 1512000000000
         and end_date = "mk_datetime 2026 1 22 + 12 * 3600000000"
         and project_start = "mk_datetime 2026 1 5" and project_end = "mk_datetime 2026 3 31"
         and v = "PyFloat (Finite (5 / 2))"]
  note broke = C10_numeric_strings_accepted [where cfg = broken_plan and i = 1 and err = ValueError]
  have routed: "\<exists>weeks td. float_of (PyStr ''2.5'') = Inr weeks \<and> timedelta_weeks weeks = Inr td
          \<and> mk_datetime 2026 1 22 + 12 * 3600000000 = mk_datetime 2026 1 5 + td"
  proof -
    have run: "calculate_schedule draft_plan
                 = Inr (?rows, mk_datetime 2026 1 5, mk_datetime 2026 3 31)
               \<and> 0 < length (tasks draft_plan)"
      using draft_plan_run h(1) by (rule conjI)
    have d: "duration_weeks ?t \<noteq> PyStr ''start2end''"
      unfolding h(2) by (rule ne(4))
    have "\<exists>weeks td. float_of (duration_weeks ?t) = Inr weeks \<and> timedelta_weeks weeks = Inr td
          \<and> End (?rows ! 0) = Start (?rows ! 0) + td"
      by (rule draft [THEN conjunct1, THEN mp, OF run, THEN conjunct2, THEN mp, OF d])
    then show ?thesis
      by (simp only: h(2) nth_Cons_0 row.simps)
  qed
  have refused: "\<exists>x. calculate_schedule broken_plan = Inl x"
    using broke b(1) bne bf by blast
  have one: "resolve_task (mk_datetime 2026 1 5) (mk_datetime 2026 3 31) (mk_datetime 2026 1 5) ?t
       = Inr (mk_row (name ?t) (mk_datetime 2026 1 5) (mk_datetime 2026 1 22 + 12 * 3600000000),
              mk_datetime 2026 1 22 + 12 * 3600000000)"
    and other: "resolve_task (mk_datetime 2026 1 5) (mk_datetime 2026 3 31) (mk_datetime 2026 1 5)
         (?t\<lparr>duration_weeks := PyFloat (Finite (5 / 2))\<rparr>)
       = Inr (mk_row (name ?t) (mk_datetime 2026 1 5) (mk_datetime 2026 1 22 + 12 * 3600000000),
              mk_datetime 2026 1 22 + 12 * 3600000000)"
    using draft h(2) ne st float_of_str_2_5 timedelta_weeks_2_5
      two_and_a_half_weeks_from_2026_01_05 f
    by blast+
  have same: "calculate_schedule
       (draft_plan\<lparr>tasks := (tasks draft_plan)
          [0 := ?t\<lparr>duration_weeks := PyFloat (Finite (5 / 2))\<rparr>]\<rparr>)
     = calculate_schedule draft_plan"
    using draft h(1,2) f ne float_of_str_2_5 by blast
  show ?thesis
    using draft_plan_run h ne routed b(1) bne bf refused float_of_str_2_5 timedelta_weeks_2_5
      two_and_a_half_weeks_from_2026_01_05 one other f same
    by (simp only: h(4)) blast
qed

subsection \<open>How close \<^verbatim>\<open>timedelta(weeks=w)\<close> is to seven times \<open>w\<close> days\<close>

lemma pow2_powi: "pow2 k = 2 powi k"
  by (simp add: pow2_def power_int_def inverse_eq_divide power_one_over)

lemma pow2_pos: "0 < pow2 k"
  by (simp add: pow2_powi)

lemma pow2_mono: "i \<le> j \<Longrightarrow> pow2 i \<le> pow2 j"
  by (simp add: pow2_powi power_int_increasing)

lemma pow2_less_imp: "pow2 i < pow2 j \<Longrightarrow> i < j"
  using pow2_mono [of j i] by (cases "i < j") auto

lemma pow2_diff: "pow2 (i - j) = pow2 i / pow2 j"
  by (simp add: pow2_powi power_int_diff)

lemma pow2_of_nat: "0 \<le> j \<Longrightarrow> pow2 j = of_int (2 ^ nat j)"
  by (simp add: pow2_def)

lemma bit_length_bounds:
  "0 < n \<Longrightarrow> 1 \<le> bit_length n \<and> 2 ^ nat (bit_length n - 1) \<le> n \<and> n < 2 ^ nat (bit_length n)"
proof (induction n rule: bit_length.induct)
  case (1 n)
  have bl: "bit_length n = 1 + bit_length (n div 2)"
    using "1.prems" by (subst bit_length.simps) simp
  show ?case
  proof (cases "n div 2 \<le> 0")
    case True
    then have "n = 1" using "1.prems" by linarith
    moreover have "bit_length (n div 2) = 0"
      using True by (subst bit_length.simps) simp
    ultimately show ?thesis using bl by simp
  next
    case False
    then have pos: "0 < n div 2" by simp
    define b where "b = bit_length (n div 2)"
    have ih: "1 \<le> b" "2 ^ nat (b - 1) \<le> n div 2" "n div 2 < 2 ^ nat b"
      using "1.IH" "1.prems" pos by (simp_all add: b_def)
    have suc: "nat b = Suc (nat (b - 1))"
      using ih(1) by simp
    have "(2::int) ^ nat b = 2 * 2 ^ nat (b - 1)"
      by (subst suc) simp
    also have "\<dots> \<le> 2 * (n div 2)"
      using ih(2) by simp
    also have "\<dots> \<le> n"
      by simp
    finally have lower: "2 ^ nat b \<le> n" .
    have "n < 2 * (n div 2) + 2"
      by linarith
    also have "\<dots> \<le> 2 * 2 ^ nat b"
      using ih(3) by simp
    finally have upper: "n < 2 ^ Suc (nat b)"
      by simp
    have "nat (1 + b) = Suc (nat b)" "1 + b - 1 = b"
      using ih(1) by simp_all
    then show ?thesis
      using bl lower upper ih(1) by (simp add: b_def)
  qed
qed

text \<open>The exponent that \<open>floor_log2\<close> returns is not too large.\<close>

lemma floor_log2_le:
  assumes "0 < a"
  shows "pow2 (floor_log2 a) \<le> a"
proof -
  obtain n d where q: "quotient_of a = (n, d)"
    by (cases "quotient_of a")
  have d: "0 < d" using q by (rule quotient_of_denom_pos)
  have a: "a = of_int n / of_int d" using q by (rule quotient_of_div)
  have n: "0 < n"
    using assms a d by (simp add: zero_less_divide_iff)
  define k where "k = bit_length n - bit_length d"
  show ?thesis
  proof (cases "pow2 k \<le> a")
    case True
    then show ?thesis by (simp add: floor_log2_def q k_def)
  next
    case False
    have bn: "1 \<le> bit_length n" "2 ^ nat (bit_length n - 1) \<le> n"
      using bit_length_bounds [OF n] by simp_all
    have bd: "1 \<le> bit_length d" "d < 2 ^ nat (bit_length d)"
      using bit_length_bounds [OF d] by simp_all
    have "pow2 (bit_length n - 1) = of_int (2 ^ nat (bit_length n - 1))"
      using bn(1) by (intro pow2_of_nat) simp
    also have "\<dots> \<le> of_int n"
      using bn(2) by (simp only: of_int_le_iff)
    finally have num: "pow2 (bit_length n - 1) \<le> of_int n" .
    have "(of_int d :: rat) \<le> of_int (2 ^ nat (bit_length d))"
      using bd(2) by (simp only: of_int_le_iff)
    also have "\<dots> = pow2 (bit_length d)"
      using bd(1) by (intro pow2_of_nat [symmetric]) simp
    finally have den: "of_int d \<le> pow2 (bit_length d)" .
    have "pow2 (k - 1) = pow2 (bit_length n - 1) / pow2 (bit_length d)"
      by (simp add: k_def pow2_diff [symmetric] algebra_simps)
    also have "\<dots> \<le> of_int n / of_int d"
      using num den d pow2_pos [of "bit_length n - 1"]
      by (intro frac_le) simp_all
    finally have "pow2 (k - 1) \<le> a" using a by simp
    then show ?thesis using False by (simp add: floor_log2_def q k_def)
  qed
qed

lemma floor_log2_less:
  assumes "0 < a" and "a < pow2 j"
  shows "floor_log2 a < j"
  using floor_log2_le [OF assms(1)] assms(2) by (intro pow2_less_imp) simp

lemma floor_log2_0: "floor_log2 0 = - 2"
  by code_simp

lemma round_half_even_error: "\<bar>of_int (round_half_even x) - x\<bar> \<le> 1 / 2"
proof -
  have "of_int \<lfloor>x\<rfloor> \<le> x" "x < of_int \<lfloor>x\<rfloor> + 1"
    by linarith+
  then show ?thesis
    by (auto simp: round_half_even_def Let_def abs_le_iff)
qed

lemma round_half_even_nonneg: "0 \<le> x \<Longrightarrow> 0 \<le> round_half_even x"
  by (auto simp: round_half_even_def Let_def)

text \<open>Below \<open>2\<^sup>4\<^sup>0\<close> the nearest float is within \<open>2\<^sup>-\<^sup>1\<^sup>4\<close>, and no infinity.\<close>

lemma round_double_small:
  assumes "\<bar>q\<bar> < pow2 40"
  shows "\<exists>v. round_double q = Finite v \<and> \<bar>v - q\<bar> \<le> pow2 (- 14)"
proof (cases "q = 0")
  case True
  then show ?thesis using pow2_pos [of "- 14"] by (simp add: round_double_def)
next
  case False
  define a where "a = \<bar>q\<bar>"
  define p where "p = max (floor_log2 a - 52) (- 1074)"
  define m where "m = round_half_even (a / pow2 p)"
  define v where "v = of_int m * pow2 p"
  have a: "0 < a" "a < pow2 40"
    using False assms by (simp_all add: a_def)
  have "floor_log2 a < 40"
    using a by (rule floor_log2_less)
  then have "p \<le> - 13"
    by (simp add: p_def)
  then have p: "pow2 p \<le> pow2 (- 13)"
    by (rule pow2_mono)
  have pp: "0 < pow2 p" by (rule pow2_pos)
  have "\<bar>of_int m - a / pow2 p\<bar> \<le> 1 / 2"
    unfolding m_def by (rule round_half_even_error)
  then have "\<bar>of_int m - a / pow2 p\<bar> * pow2 p \<le> 1 / 2 * pow2 p"
    using pp by (intro mult_right_mono) simp_all
  moreover have "\<bar>of_int m - a / pow2 p\<bar> * pow2 p = \<bar>v - a\<bar>"
  proof -
    have e: "(of_int m - a / pow2 p) * pow2 p = v - a"
      using pp by (simp add: v_def left_diff_distrib)
    have "\<bar>v - a\<bar> = \<bar>of_int m - a / pow2 p\<bar> * \<bar>pow2 p\<bar>"
      unfolding e [symmetric] by (rule abs_mult)
    also have "\<dots> = \<bar>of_int m - a / pow2 p\<bar> * pow2 p"
      using pp by simp
    finally show ?thesis by simp
  qed
  ultimately have "\<bar>v - a\<bar> \<le> 1 / 2 * pow2 p"
    by simp
  also have "\<dots> \<le> 1 / 2 * pow2 (- 13)"
    using p by simp
  also have "\<dots> = pow2 (- 14)"
    by (simp add: pow2_def)
  finally have err: "\<bar>v - a\<bar> \<le> pow2 (- 14)" .
  have "0 \<le> m"
    unfolding m_def using a(1) pp by (intro round_half_even_nonneg) simp
  then have v0: "0 \<le> v"
    using pp by (simp add: v_def)
  have "v \<le> a + pow2 (- 14)"
    using err by (simp add: abs_le_iff)
  also have "\<dots> < pow2 40 + pow2 (- 14)"
    using a(2) by simp
  also have "\<dots> \<le> pow2 41"
    by (simp add: pow2_def)
  finally have "v < pow2 41" .
  have noinf: "\<not> 1024 \<le> floor_log2 v"
  proof (cases "v = 0")
    case True
    then show ?thesis by (simp add: floor_log2_0)
  next
    case False
    then have "0 < v" using v0 by simp
    then have "floor_log2 v < 41"
      using \<open>v < pow2 41\<close> by (rule floor_log2_less)
    then show ?thesis by simp
  qed
  have r: "round_double q = Finite (if 0 < q then v else - v)"
    using False noinf by (simp add: round_double_def Let_def a_def p_def m_def v_def)
  have "\<bar>(if 0 < q then v else - v) - q\<bar> = \<bar>v - a\<bar>"
    using False by (auto simp: a_def abs_if)
  then show ?thesis using r err by simp
qed

lemma trunc_frac: "\<bar>q - of_int (trunc q)\<bar> < 1"
proof -
  have "of_int \<lfloor>q\<rfloor> \<le> q" "q < of_int \<lfloor>q\<rfloor> + 1" "q \<le> of_int \<lceil>q\<rceil>" "of_int \<lceil>q\<rceil> < q + 1"
    by linarith+
  then show ?thesis
  proof (cases "0 \<le> q")
    case True
    then have "trunc q = \<lfloor>q\<rfloor>" by (simp add: trunc_def)
    then show ?thesis by simp linarith
  next
    case False
    then have "trunc q = \<lceil>q\<rceil>" by (simp add: trunc_def)
    then show ?thesis by simp linarith
  qed
qed

lemma trunc_of_int: "q \<in> \<int> \<Longrightarrow> of_int (trunc q) = q"
  by (auto simp: trunc_def elim!: Ints_cases)

lemma timedelta_weeks_Finite:
  assumes "timedelta_weeks w = Inr td"
  obtains q where "w = Finite q"
  using assms by (cases w) (simp_all add: timedelta_weeks_def float_to_int_def)

text \<open>The microseconds of the result are within one of \<open>604800000000 \<sqdot> w\<close>, and exact for a whole \<open>w\<close>.\<close>

lemma timedelta_weeks_close:
  assumes "timedelta_weeks (Finite q) = Inr td"
  shows "\<bar>of_int td - q * of_int us_per_week\<bar> < 1
       \<and> (q \<in> \<int> \<longrightarrow> of_int td = q * of_int us_per_week)"
proof -
  define f where "f = q - of_int (trunc q)"
  define x where "x = trunc q * us_per_week"
  have whole: "of_int x + of_int us_per_week * f = q * of_int us_per_week"
    by (simp add: x_def f_def algebra_simps)
  show ?thesis
  proof (cases "f = 0")
    case True
    then have "td = x"
      using assms
      by (auto simp: timedelta_weeks_def float_to_int_def Let_def f_def x_def split: if_splits)
    then show ?thesis using whole True by simp
  next
    case False
    have "\<bar>of_int us_per_week * f\<bar> = of_int us_per_week * \<bar>f\<bar>"
      by (simp add: abs_mult us_per_week_def)
    also have "\<dots> < of_int us_per_week * 1"
      using trunc_frac [of q] by (intro mult_strict_left_mono) (simp_all add: f_def us_per_week_def)
    also have "\<dots> \<le> pow2 40"
      by (simp add: pow2_def us_per_week_def)
    finally have "\<bar>of_int us_per_week * f\<bar> < pow2 40" .
    then obtain d where d: "round_double (of_int us_per_week * f) = Finite d"
      and err: "\<bar>d - of_int us_per_week * f\<bar> \<le> pow2 (- 14)"
      using round_double_small by blast
    have "td = round_half_even (of_int x + d)"
      using assms False d
      by (auto simp: timedelta_weeks_def float_to_int_def Let_def f_def x_def split: if_splits)
    then have "\<bar>of_int td - (of_int x + d)\<bar> \<le> 1 / 2"
      using round_half_even_error [of "of_int x + d"] by simp
    moreover have "pow2 (- 14) < 1 / 2"
      by (simp add: pow2_def)
    ultimately have "\<bar>of_int td - (of_int x + of_int us_per_week * f)\<bar> < 1"
      using err by linarith
    moreover have "q \<notin> \<int>"
      using False trunc_of_int [of q] by (auto simp: f_def)
    ultimately show ?thesis using whole by simp
  qed
qed

subsection \<open>The end of a numeric task\<close>

lemma half_week_resolves:
  "resolve_task (mk_datetime 2026 1 1) (mk_datetime 2026 4 1) (mk_datetime 2026 1 1) half_week
     = Inr (\<lparr>Task = ''Half'', Start = mk_datetime 2026 1 1,
              End = mk_datetime 2026 1 4 + 12 * 3600000000, DurationDays = 3\<rparr>,
            mk_datetime 2026 1 4 + 12 * 3600000000)"
  by code_simp

lemma half_week_not_whole_days:
  "\<not> us_per_day dvd (mk_datetime 2026 1 4 + 12 * 3600000000 - mk_datetime 2026 1 1)"
  by code_simp

lemma half_week_length:
  "mk_datetime 2026 1 4 + 12 * 3600000000 - mk_datetime 2026 1 1 = 302400000000"
  by code_simp

text \<open>
  Claim C7, as it is stated: the end of a numeric task is its start plus seven times the
  weeks in days, the fraction of a day truncated, so that end minus start is a whole
  number of days. The code keeps the fraction: half a week from midnight of 2026-01-01
  ends at noon of 2026-01-04, three and a half days later, and only the
  \<^verbatim>\<open>DurationDays\<close> column is cut to 3.
\<close>

theorem C7_half_week_ends_at_noon:
  "resolve_task (mk_datetime 2026 1 1) (mk_datetime 2026 4 1) (mk_datetime 2026 1 1)
       \<lparr>name = ''Half'', duration_weeks = PyFloat (Finite (1 / 2)), start_date = None\<rparr>
     = Inr (\<lparr>Task = ''Half'', Start = mk_datetime 2026 1 1,
              End = mk_datetime 2026 1 4 + 12 * 3600000000, DurationDays = 3\<rparr>,
            mk_datetime 2026 1 4 + 12 * 3600000000)
   \<and> \<not> us_per_day dvd (mk_datetime 2026 1 4 + 12 * 3600000000 - mk_datetime 2026 1 1)"
  using half_week_resolves half_week_not_whole_days by (simp add: half_week_def)

text \<open>
  Claim C7, amended. For a task with a numeric duration of \<open>w\<close> weeks that resolves, the
  end is the start plus seven times \<open>w\<close> days to the microsecond: end minus start, in
  microseconds, differs from \<open>7 \<sqdot> w\<close> days by less than one, and is exactly \<open>7 \<sqdot> w\<close> days
  when \<open>w\<close> is a whole number. Nothing is truncated to whole days in the end date; the
  \<^verbatim>\<open>DurationDays\<close> column is the number of whole days in end minus start, rounded down.
\<close>

theorem C7_numeric_end_to_the_microsecond:
  assumes "duration_weeks t \<noteq> PyStr ''start2end''"
    and "resolve_task project_start project_end cursor t = Inr (r, cursor')"
  shows "\<exists>w. float_of (duration_weeks t) = Inr (Finite w)
           \<and> \<bar>of_int (End r - Start r) - w * 7 * of_int us_per_day\<bar> < 1
           \<and> (w \<in> \<int> \<longrightarrow> of_int (End r - Start r) = w * 7 * of_int us_per_day)
           \<and> DurationDays r = (End r - Start r) div us_per_day"
proof -
  from assms obtain start e where
    e: "numeric_end (name t) (duration_weeks t) start = Inr e"
    and r: "r = mk_row (name t) start e"
    by (auto simp: resolve_task_numeric bind_exn_eq_Inr)
  from e obtain weeks td where
    w: "float_of (duration_weeks t) = Inr weeks" and td: "timedelta_weeks weeks = Inr td"
    and a: "datetime_add start td = Inr e"
    by (auto simp: numeric_end_Inr)
  obtain q where q: "weeks = Finite q"
    using td by (rule timedelta_weeks_Finite)
  have diff: "End r - Start r = td"
    using datetime_add_Inr [OF a] r by (simp add: mk_row_def)
  have week: "q * of_int us_per_week = q * 7 * of_int us_per_day"
    by (simp add: us_per_week_def us_per_day_def)
  have "\<bar>of_int td - q * 7 * of_int us_per_day\<bar> < 1
       \<and> (q \<in> \<int> \<longrightarrow> of_int td = q * 7 * of_int us_per_day)"
    using timedelta_weeks_close [of q td] td q week by simp
  moreover have "DurationDays r = (End r - Start r) div us_per_day"
    using r by (simp add: mk_row_def days_between_def)
  ultimately show ?thesis
    using w q diff by auto
qed

theorem C7_numeric_end_to_the_microsecond_witness:
  "duration_weeks half_week \<noteq> PyStr ''start2end''
   \<and> resolve_task (mk_datetime 2026 1 1) (mk_datetime 2026 4 1) (mk_datetime 2026 1 1) half_week
     = Inr (\<lparr>Task = ''Half'', Start = mk_datetime 2026 1 1,
              End = mk_datetime 2026 1 4 + 12 * 3600000000, DurationDays = 3\<rparr>,
            mk_datetime 2026 1 4 + 12 * 3600000000)
   \<and> (\<exists>w. float_of (duration_weeks half_week) = Inr (Finite w)
         \<and> \<bar>of_int (302400000000 :: int) - w * 7 * of_int us_per_day\<bar> < 1
         \<and> (w \<in> \<int> \<longrightarrow> of_int (302400000000 :: int) = w * 7 * of_int us_per_day)
         \<and> (3 :: int) = 302400000000 div us_per_day)"
proof -
  have d: "duration_weeks half_week \<noteq> PyStr ''start2end''"
    by (simp add: half_week_def)
  have "\<exists>w. float_of (duration_weeks half_week) = Inr (Finite w)
         \<and> \<bar>of_int (302400000000 :: int) - w * 7 * of_int us_per_day\<bar> < 1
         \<and> (w \<in> \<int> \<longrightarrow> of_int (302400000000 :: int) = w * 7 * of_int us_per_day)
         \<and> (3 :: int) = 302400000000 div us_per_day"
    using C7_numeric_end_to_the_microsecond [OF d half_week_resolves]
    by (simp only: row.simps half_week_length)
  then show ?thesis
    using d half_week_resolves by blast
qed

end
